theory Spec2Isabelle
  imports Main "HOL-Library.Finite_Map" "HOL-Library.AList"
begin

section \<open>Data model\<close>

text \<open>
  The song loader of \<^verbatim>\<open>song_loader.py\<close> and the table controller of
  \<^verbatim>\<open>song_table.py\<close>. A song directory is a name below a parent location and a file
  is a name inside a song directory, which is all that \<^verbatim>\<open>Path.parent\<close>,
  \<^verbatim>\<open>Path.name\<close>, \<^verbatim>\<open>with_name\<close> and \<^verbatim>\<open>joinpath\<close> are used for here.
\<close>

type_synonym SongId = nat

datatype DirPath = DirPath (dir_parent: string) (dir_name: string)

datatype FilePath = FilePath (parent: DirPath) (name: string)

text \<open>
  \<^verbatim>\<open>FileMeta\<close>, \<^verbatim>\<open>MetaTags\<close> and \<^verbatim>\<open>SyncMeta\<close> live in modules that are
  not among the sources; the records keep the attributes that the loader reads and
  writes. An image meta tag is more than its URL in the loader's eyes (it asks it for
  \<^verbatim>\<open>source_url()\<close> and hands the whole tag to the image download), so the rest of
  the tag is kept as an opaque second component.
\<close>

record FileMeta =
  fname :: string
  resource :: string

datatype ImageMetaTags = ImageMetaTags (source_url: string) (params: string)

record MetaTags =
  tag_audio :: "string option"
  tag_video :: "string option"
  tag_cover :: "ImageMetaTags option"
  tag_background :: "ImageMetaTags option"
  audio_only :: bool

record SyncMeta =
  sm_song_id :: SongId
  sm_meta_tags :: MetaTags
  pinned :: bool
  sm_txt :: "FileMeta option"
  sm_audio :: "FileMeta option"
  sm_video :: "FileMeta option"
  sm_cover :: "FileMeta option"
  sm_background :: "FileMeta option"

record Headers =
  h_artist :: string
  h_title :: string
  h_creator :: "string option"
  h_mp3 :: "string option"
  h_video :: "string option"
  h_cover :: "string option"
  h_background :: "string option"
  h_genre :: "string option"
  h_year :: "string option"
  h_language :: string

record SongTxt =
  headers :: Headers
  meta_tags :: MetaTags
  unsynchronized_lyrics :: string
  synchronized_lyrics :: string

record SongDetails =
  d_song_id :: SongId
  d_artist :: string
  d_title :: string
  uploader :: "string option"
  d_cover_url :: "string option"
  all_comment_videos :: "string list"

record AudioOptions =
  embed_artwork :: bool

datatype VideoOptions = VideoOptions

record CoverOptions =
  max_size :: nat

record BackgroundOptions =
  even_with_video :: bool

record TxtOptions =
  encoding :: string
  newline :: string

record Options =
  song_dir :: string
  audio_options :: "AudioOptions option"
  video_options :: "VideoOptions option"
  cover :: "CoverOptions option"
  background_options :: "BackgroundOptions option"
  txt_options :: "TxtOptions option"

record DownloadInfo =
  song_id :: SongId
  meta_path :: "FilePath option"

record Locations =
  loc_meta_path :: FilePath
  filename_stem :: string

record Context =
  details :: SongDetails
  options :: Options
  song_txt :: SongTxt
  locations :: Locations
  sync_meta :: SyncMeta

datatype LocalFiles = LocalFiles FilePath SyncMeta

record DownloadResult =
  r_song_id :: SongId
  files :: "LocalFiles option"

text \<open>
  What a file holds: its payload (media bytes, a serialised \<^verbatim>\<open>SyncMeta\<close>, or a
  written song txt with its encoding and newline) and the metadata tags embedded in it,
  keyed as the tagging library keys them; a picture tag holds the files read into it.
\<close>

datatype payload =
    Bytes string
  | Meta SyncMeta
  | Txt SongTxt string string

datatype tag_value = Text string | Pictures "content list"
  and content = File payload "(string \<times> tag_value) list"

type_synonym Files = "(string, content) fmap"

type_synonym FileSystem = "(DirPath, Files) fmap"

text \<open>
  The four resource slots; \<^verbatim>\<open>ImageKind.COVER\<close> and \<^verbatim>\<open>ImageKind.BACKGROUND\<close>
  are the last two.
\<close>

datatype Slot = Audio | Video | Cover | Background

text \<open>One constructor for each message that the two modules log.\<close>

datatype LogMsg =
    CouldNotFindSong
  | FoundOnUsdb
  | AbortedNotLoggedIn
  | NoAudioVideoMetaTag
  | UrlFromVideoParams Slot
  | FallbackToUsdbCover
  | Unchanged Slot
  | Success Slot
  | Failed Slot
  | NoResourceFound Slot
  | CreatedSongTxt
  | AllDone
  | NotDownloadingPinned
  | NotTrashingPinned
  | TrashedSongFolder

text \<open>
  What a run does to the world beyond the file system, in order: the two callbacks, every
  call of an external download primitive (\<^verbatim>\<open>download_audio\<close>,
  \<^verbatim>\<open>download_video\<close>, \<^verbatim>\<open>download_and_process_image\<close>) with the resource it
  was called on, and every log message.
\<close>

datatype event =
    OnStart SongId
  | OnFinish DownloadResult
  | Download Slot string
  | Log LogMsg

datatype error =
    FileNotFoundError
  | OSError
  | InvalidLanguageValue
  | MutagenError
  | AttributeError
  | TypeError
  | AssertionError

text \<open>
  The external collaborators. Each download returns what the loader reads from it (the
  final extension, or the final file name of an image) together with the bytes that the
  primitive has put at that place; \<^verbatim>\<open>None\<close> is its failure. \<open>parse\<close> is
  \<^verbatim>\<open>SongTxt.parse\<close> followed by \<^verbatim>\<open>sanitize\<close>, and \<open>lang_pt2b\<close> is the
  \<^verbatim>\<open>iso639\<close> lookup \<^verbatim>\<open>Lang(...).pt2b\<close>, which raises for a language it does
  not know.
\<close>

record Env =
  get_usdb_details :: "SongId \<Rightarrow> SongDetails option"
  get_notes :: "SongId \<Rightarrow> string option"
  parse :: "string \<Rightarrow> SongTxt"
  sanitize_filename :: "string \<Rightarrow> string"
  download_audio :: "string \<Rightarrow> AudioOptions \<Rightarrow> (string \<times> content) option"
  download_video :: "string \<Rightarrow> VideoOptions \<Rightarrow> (string \<times> content) option"
  download_and_process_image ::
    "string \<Rightarrow> ImageMetaTags option \<Rightarrow> Slot \<Rightarrow> nat option \<Rightarrow> (string \<times> content) option"
  lang_pt2b :: "string \<Rightarrow> string option"

section \<open>Files\<close>

definition dir_exists :: "FileSystem \<Rightarrow> DirPath \<Rightarrow> bool" where
  "dir_exists fs d = (fmlookup fs d \<noteq> None)"

definition files_of :: "FileSystem \<Rightarrow> DirPath \<Rightarrow> Files" where
  "files_of fs d = (case fmlookup fs d of Some fl \<Rightarrow> fl | None \<Rightarrow> fmempty)"

definition read_file :: "FileSystem \<Rightarrow> FilePath \<Rightarrow> content option" where
  "read_file fs p = fmlookup (files_of fs (parent p)) (name p)"

definition file_exists :: "FileSystem \<Rightarrow> FilePath \<Rightarrow> bool" where
  "file_exists fs p = (read_file fs p \<noteq> None)"

definition write_file :: "FileSystem \<Rightarrow> FilePath \<Rightarrow> content \<Rightarrow> FileSystem" where
  "write_file fs p c = fmupd (parent p) (fmupd (name p) c (files_of fs (parent p))) fs"

text \<open>\<^verbatim>\<open>Path.mkdir(parents=True, exist_ok=True)\<close>\<close>

definition mkdir :: "FileSystem \<Rightarrow> DirPath \<Rightarrow> FileSystem" where
  "mkdir fs d = (if dir_exists fs d then fs else fmupd d fmempty fs)"

text \<open>Python's truth value of a \<^verbatim>\<open>str | None\<close>.\<close>

fun truthy :: "string option \<Rightarrow> bool" where
  "truthy None = False"
| "truthy (Some s) = (s \<noteq> [])"

section \<open>File name helpers\<close>

text \<open>
  Modelled from the spec: \<^verbatim>\<open>utils.py\<close> is not among the sources. A directory name
  is made unique by "appending a numeric suffix", two names match "ignoring an optional
  numeric suffix", and a renamed resource keeps its "original extension". The suffix is
  written \<^verbatim>\<open> (n)\<close> with \<open>n\<close> in decimal, counting from 1.
\<close>

definition digit_char :: "nat \<Rightarrow> char" where
  "digit_char d = ''0123456789'' ! d"

fun show_nat :: "nat \<Rightarrow> string" where
  "show_nat n =
     (if n < 10 then [digit_char n] else show_nat (n div 10) @ [digit_char (n mod 10)])"

declare show_nat.simps [simp del]

definition with_suffix :: "DirPath \<Rightarrow> nat \<Rightarrow> DirPath" where
  "with_suffix path k = DirPath (dir_parent path) (dir_name path @ '' ('' @ show_nat k @ '')'')"

lemma digit_char_inj:
  assumes "a < 10" and "b < 10" and "digit_char a = digit_char b"
  shows "a = b"
proof -
  have "a \<in> {0, 1, 2, 3, 4, 5, 6, 7, 8, 9}" using assms(1) by auto
  moreover have "b \<in> {0, 1, 2, 3, 4, 5, 6, 7, 8, 9}" using assms(2) by auto
  ultimately show ?thesis using assms(3) by (auto simp: digit_char_def)
qed

lemma show_nat_not_Nil: "show_nat k \<noteq> []"
  by (subst show_nat.simps) simp

lemma show_nat_inj: "show_nat a = show_nat b \<Longrightarrow> a = b"
proof (induction a arbitrary: b rule: show_nat.induct)
  case (1 n)
  show ?case
  proof (cases "n < 10")
    case small: True
    show ?thesis
    proof (cases "b < 10")
      case True
      with small 1(2) show ?thesis
        by (simp add: show_nat.simps[of n] show_nat.simps[of b] digit_char_inj)
    next
      case False
      with small 1(2) show_nat_not_Nil[of "b div 10"] show ?thesis
        by (simp add: show_nat.simps[of n] show_nat.simps[of b])
    qed
  next
    case large: False
    show ?thesis
    proof (cases "b < 10")
      case True
      with large 1(2) show_nat_not_Nil[of "n div 10"] show ?thesis
        by (simp add: show_nat.simps[of n] show_nat.simps[of b])
    next
      case False
      with large 1(2) have e: "show_nat (n div 10) = show_nat (b div 10)"
        "digit_char (n mod 10) = digit_char (b mod 10)"
        by (simp_all add: show_nat.simps[of n] show_nat.simps[of b])
      from 1(1)[OF large e(1)] have "n div 10 = b div 10" .
      moreover have "n mod 10 = b mod 10" using e(2) by (intro digit_char_inj) simp_all
      ultimately show ?thesis by (metis div_mult_mod_eq)
    qed
  qed
qed

lemma finite_suffixes: "finite {k. n \<le> k \<and> dir_exists fs (with_suffix path k)}"
proof -
  have "{k. n \<le> k \<and> dir_exists fs (with_suffix path k)} \<subseteq> with_suffix path -` fmdom' fs"
    by (auto simp: dir_exists_def fmdom'I)
  moreover have "finite (with_suffix path -` fmdom' fs)"
    by (rule finite_vimageI) (auto simp: inj_on_def with_suffix_def dest: show_nat_inj)
  ultimately show ?thesis by (rule finite_subset)
qed

text \<open>
  \<^verbatim>\<open>next_unique_directory\<close>: the path itself when nothing is there, else the first
  of \<^verbatim>\<open>name (1)\<close>, \<^verbatim>\<open>name (2)\<close>, ... that is free. The search ends because a
  file system holds finitely many directories.
\<close>

function next_free_suffix :: "FileSystem \<Rightarrow> DirPath \<Rightarrow> nat \<Rightarrow> DirPath" where
  "next_free_suffix fs path k =
     (if dir_exists fs (with_suffix path k)
      then next_free_suffix fs path (Suc k)
      else with_suffix path k)"
  by pat_completeness auto
termination
proof (relation "measure (\<lambda>(fs, path, k).
          card {j. k \<le> j \<and> dir_exists fs (with_suffix path j)})")
  show "wf (measure (\<lambda>(fs, path, k).
          card {j. k \<le> j \<and> dir_exists fs (with_suffix path j)}))"
    by simp
next
  fix fs :: FileSystem and path k
  assume e: "dir_exists fs (with_suffix path k)"
  let ?S = "\<lambda>n. {j. n \<le> j \<and> dir_exists fs (with_suffix path j)}"
  have "k \<in> ?S k" "k \<notin> ?S (Suc k)" "?S (Suc k) \<subseteq> ?S k"
    using e by auto
  then have "?S (Suc k) \<subset> ?S k" by blast
  then have "card (?S (Suc k)) < card (?S k)"
    by (rule psubset_card_mono[OF finite_suffixes])
  then show "((fs, path, Suc k), (fs, path, k))
        \<in> measure (\<lambda>(fs, path, k).
          card {j. k \<le> j \<and> dir_exists fs (with_suffix path j)})"
    by simp
qed

declare next_free_suffix.simps [simp del]

definition next_unique_directory :: "FileSystem \<Rightarrow> DirPath \<Rightarrow> DirPath" where
  "next_unique_directory fs path =
     (if dir_exists fs path then next_free_suffix fs path 1 else path)"

definition is_digit :: "char \<Rightarrow> bool" where
  "is_digit c = (c \<in> set ''0123456789'')"

definition is_name_maybe_with_suffix :: "string \<Rightarrow> string \<Rightarrow> bool" where
  "is_name_maybe_with_suffix text nm =
     (take (length nm) text = nm \<and>
      (let tail = drop (length nm) text in
       tail = [] \<or>
       (4 \<le> length tail \<and> take 2 tail = '' ('' \<and> last tail = CHR '')'' \<and>
        list_all is_digit (butlast (drop 2 tail)))))"

text \<open>\<^verbatim>\<open>PurePath.suffix\<close>: the name from its last dot on, when that dot is neither the
  first nor the last character.\<close>

definition path_suffix :: "string \<Rightarrow> string" where
  "path_suffix nm =
     (let after = takeWhile (\<lambda>c. c \<noteq> CHR ''.'') (rev nm);
          i = length nm - Suc (length after)
      in if CHR ''.'' \<in> set nm \<and> 0 < i \<and> after \<noteq> [] then drop i nm else [])"

definition resource_file_ending :: "string \<Rightarrow> string" where
  "resource_file_ending nm = path_suffix nm"

text \<open>\<^verbatim>\<open>f"{song_id}.usdb"\<close>\<close>

definition usdb_name :: "SongId \<Rightarrow> string" where
  "usdb_name sid = show_nat sid @ ''.usdb''"

text \<open>An error raised by the first step skips the second, as an exception does.\<close>

definition bind_err :: "error + 'a \<Rightarrow> ('a \<Rightarrow> error + 'b) \<Rightarrow> error + 'b" where
  "bind_err r f = (case r of Inl e \<Rightarrow> Inl e | Inr x \<Rightarrow> f x)"

section \<open>Locations\<close>

definition dir_path :: "Locations \<Rightarrow> DirPath" where
  "dir_path loc = parent (loc_meta_path loc)"

definition file_path :: "Locations \<Rightarrow> string \<Rightarrow> string \<Rightarrow> FilePath" where
  "file_path loc file ext =
     (let name1 = (if file \<noteq> [] then file else filename_stem loc);
          name2 = (if ext \<noteq> [] then name1 @ ''.'' @ ext else name1)
      in FilePath (parent (loc_meta_path loc)) name2)"

text \<open>
  Modelled from the spec: \<^verbatim>\<open>Headers.artist_title_str\<close> is not among the sources; the
  stem is the sanitized "artist - title" string.
\<close>

definition artist_title_str :: "Headers \<Rightarrow> string" where
  "artist_title_str h = h_artist h @ '' - '' @ h_title h"

text \<open>\<^verbatim>\<open>Locations.new\<close>\<close>

definition Locations_new ::
  "Env \<Rightarrow> FileSystem \<Rightarrow> SongId \<Rightarrow> string \<Rightarrow> FilePath option \<Rightarrow> Headers \<Rightarrow> Locations" where
  "Locations_new env fs sid sdir mp h =
     (let stem = sanitize_filename env (artist_title_str h) in
      case mp of
        None \<Rightarrow>
          (let d = next_unique_directory fs (DirPath sdir stem)
           in \<lparr>loc_meta_path = FilePath d (usdb_name sid), filename_stem = stem\<rparr>)
      | Some p \<Rightarrow> \<lparr>loc_meta_path = p, filename_stem = stem\<rparr>)"

text \<open>
  \<^verbatim>\<open>Path.rename\<close> of a directory and of a file. Renaming what is not there raises, and
  so does renaming a directory onto another one that exists.
\<close>

definition rename_dir :: "FileSystem \<Rightarrow> DirPath \<Rightarrow> DirPath \<Rightarrow> error + FileSystem" where
  "rename_dir fs old new =
     (case fmlookup fs old of
        None \<Rightarrow> Inl FileNotFoundError
      | Some fl \<Rightarrow>
          if old \<noteq> new \<and> dir_exists fs new then Inl OSError
          else Inr (fmupd new fl (fmdrop old fs)))"

definition rename_file :: "FileSystem \<Rightarrow> FilePath \<Rightarrow> FilePath \<Rightarrow> error + FileSystem" where
  "rename_file fs old new =
     (case read_file fs old of
        None \<Rightarrow> Inl FileNotFoundError
      | Some c \<Rightarrow>
          Inr (write_file
                 (fmupd (parent old) (fmdrop (name old) (files_of fs (parent old))) fs) new c))"

text \<open>\<^verbatim>\<open>Locations._fix_meta_path\<close>\<close>

definition fix_meta_path :: "Locations \<Rightarrow> FileSystem \<Rightarrow> error + (Locations \<times> FileSystem)" where
  "fix_meta_path loc fs =
     (let new = next_unique_directory fs
                  (DirPath (dir_parent (dir_path loc)) (filename_stem loc))
      in bind_err (rename_dir fs (dir_path loc) new)
           (\<lambda>fs'. Inr (loc\<lparr>loc_meta_path := FilePath new (name (loc_meta_path loc))\<rparr>, fs')))"

text \<open>
  The body of the loop of \<^verbatim>\<open>Locations._fix_resource_paths\<close> for one descriptor,
  and the loop over \<^verbatim>\<open>sync_meta.file_metas()\<close>: the descriptors that are set, taken
  as txt, audio, video, cover, background. The loop has no logger at hand and logs
  nothing.
\<close>

definition fix_resource_path ::
  "Locations \<Rightarrow> FileSystem \<Rightarrow> FileMeta \<Rightarrow> error + (FileSystem \<times> FileMeta)" where
  "fix_resource_path loc fs meta =
     (let old_path = file_path loc (fname meta) [];
          new_path = file_path loc (filename_stem loc @ resource_file_ending (fname meta)) []
      in if old_path = new_path \<or> file_exists fs new_path \<or> \<not> file_exists fs old_path
         then Inr (fs, meta)
         else bind_err (rename_file fs old_path new_path)
                (\<lambda>fs'. Inr (fs', meta\<lparr>fname := name new_path\<rparr>)))"

fun fix_file_meta ::
  "Locations \<Rightarrow> FileSystem \<Rightarrow> FileMeta option \<Rightarrow> error + (FileSystem \<times> FileMeta option)" where
  "fix_file_meta loc fs None = Inr (fs, None)"
| "fix_file_meta loc fs (Some meta) =
     bind_err (fix_resource_path loc fs meta) (\<lambda>(fs', meta'). Inr (fs', Some meta'))"

definition fix_resource_paths ::
  "Locations \<Rightarrow> SyncMeta \<Rightarrow> FileSystem \<Rightarrow> error + (SyncMeta \<times> FileSystem)" where
  "fix_resource_paths loc sm fs =
     bind_err (fix_file_meta loc fs (sm_txt sm)) (\<lambda>(fs1, t).
     bind_err (fix_file_meta loc fs1 (sm_audio sm)) (\<lambda>(fs2, a).
     bind_err (fix_file_meta loc fs2 (sm_video sm)) (\<lambda>(fs3, v).
     bind_err (fix_file_meta loc fs3 (sm_cover sm)) (\<lambda>(fs4, c).
     bind_err (fix_file_meta loc fs4 (sm_background sm)) (\<lambda>(fs5, b).
       Inr (sm\<lparr>sm_txt := t, sm_audio := a, sm_video := v, sm_cover := c,
               sm_background := b\<rparr>, fs5))))))"

text \<open>\<^verbatim>\<open>Locations.ensure_correct_paths\<close>\<close>

definition ensure_correct_paths ::
  "Locations \<Rightarrow> SyncMeta \<Rightarrow> FileSystem \<Rightarrow> error + (Locations \<times> SyncMeta \<times> FileSystem)" where
  "ensure_correct_paths loc sm fs =
     (if is_name_maybe_with_suffix (dir_name (dir_path loc)) (filename_stem loc)
      then Inr (loc, sm, fs)
      else
        bind_err (fix_meta_path loc fs) (\<lambda>(loc', fs').
        bind_err (fix_resource_paths loc' sm fs') (\<lambda>(sm', fs'').
          Inr (loc', sm', fs''))))"

section \<open>Sync meta\<close>

text \<open>
  Modelled from the spec: \<^verbatim>\<open>sync_meta.py\<close> is not among the sources. The mutators
  \<^verbatim>\<open>set_*_meta(path, resource)\<close> "record filename + source identifier for a slot",
  and the accessors \<^verbatim>\<open>synced_*(dir)\<close> return the slot's descriptor and
  "additionally verify the referenced file still exists in dir".
\<close>

definition slot_meta :: "Slot \<Rightarrow> SyncMeta \<Rightarrow> FileMeta option" where
  "slot_meta slot sm =
     (case slot of Audio \<Rightarrow> sm_audio sm | Video \<Rightarrow> sm_video sm
      | Cover \<Rightarrow> sm_cover sm | Background \<Rightarrow> sm_background sm)"

definition set_slot_meta :: "Slot \<Rightarrow> FilePath \<Rightarrow> string \<Rightarrow> SyncMeta \<Rightarrow> SyncMeta" where
  "set_slot_meta slot path res sm =
     (let m = \<lparr>fname = name path, resource = res\<rparr> in
      case slot of
        Audio \<Rightarrow> sm\<lparr>sm_audio := Some m\<rparr>
      | Video \<Rightarrow> sm\<lparr>sm_video := Some m\<rparr>
      | Cover \<Rightarrow> sm\<lparr>sm_cover := Some m\<rparr>
      | Background \<Rightarrow> sm\<lparr>sm_background := Some m\<rparr>)"

definition set_txt_meta :: "FilePath \<Rightarrow> SyncMeta \<Rightarrow> SyncMeta" where
  "set_txt_meta path sm = sm\<lparr>sm_txt := Some \<lparr>fname = name path, resource = []\<rparr>\<rparr>"

definition synced :: "Slot \<Rightarrow> SyncMeta \<Rightarrow> FileSystem \<Rightarrow> DirPath \<Rightarrow> FileMeta option" where
  "synced slot sm fs folder =
     (case slot_meta slot sm of
        None \<Rightarrow> None
      | Some m \<Rightarrow> if file_exists fs (FilePath folder (fname m)) then Some m else None)"

text \<open>
  Modelled from the spec: \<^verbatim>\<open>SyncMeta.new\<close> is "a fresh record seeded with
  currentTags", \<^verbatim>\<open>try_from_file\<close> parses "an existing metadata file at path" and
  fails on what is not one, and \<^verbatim>\<open>to_file(dir)\<close> serialises the record into the
  directory, under the name that \<^verbatim>\<open>Locations.new\<close> gives the metadata file.
\<close>

definition SyncMeta_new :: "SongId \<Rightarrow> MetaTags \<Rightarrow> SyncMeta" where
  "SyncMeta_new sid tags =
     \<lparr>sm_song_id = sid, sm_meta_tags = tags, pinned = False, sm_txt = None, sm_audio = None,
      sm_video = None, sm_cover = None, sm_background = None\<rparr>"

definition try_from_file :: "FileSystem \<Rightarrow> FilePath \<Rightarrow> SyncMeta option" where
  "try_from_file fs path =
     (case read_file fs path of
        Some (File (Meta sm) []) \<Rightarrow> Some sm
      | _ \<Rightarrow> None)"

definition to_file :: "SyncMeta \<Rightarrow> DirPath \<Rightarrow> FileSystem \<Rightarrow> FileSystem" where
  "to_file sm folder fs = write_file fs (FilePath folder (usdb_name (sm_song_id sm))) (File (Meta sm) [])"

text \<open>\<^verbatim>\<open>_load_sync_meta\<close>\<close>

definition load_sync_meta :: "FileSystem \<Rightarrow> FilePath \<Rightarrow> SongId \<Rightarrow> MetaTags \<Rightarrow> SyncMeta" where
  "load_sync_meta fs path sid tags =
     (if file_exists fs path
      then (case try_from_file fs path of Some meta \<Rightarrow> meta | None \<Rightarrow> SyncMeta_new sid tags)
      else SyncMeta_new sid tags)"

section \<open>Context\<close>

text \<open>
  \<^verbatim>\<open>Context.new\<close>: \<^verbatim>\<open>None\<close> when there are no notes to read. It reads the file
  system and changes nothing in it.
\<close>

definition Context_new ::
  "Env \<Rightarrow> SongDetails \<Rightarrow> Options \<Rightarrow> DownloadInfo \<Rightarrow> FileSystem \<Rightarrow> Context option" where
  "Context_new env dets opts info fs =
     (case get_notes env (d_song_id dets) of
        None \<Rightarrow> None
      | Some txt_str \<Rightarrow>
          if txt_str = [] then None
          else
            (let t = parse env txt_str;
                 h = headers t;
                 creator = (if truthy (h_creator h) then h_creator h
                            else if truthy (uploader dets) then uploader dets else None);
                 t' = t\<lparr>headers := h\<lparr>h_creator := creator\<rparr>\<rparr>;
                 paths = Locations_new env fs (d_song_id dets) (song_dir opts)
                           (meta_path info) (headers t');
                 sm = load_sync_meta fs (loc_meta_path paths) (d_song_id dets) (meta_tags t')
             in Some \<lparr>details = dets, options = opts, song_txt = t', locations = paths,
                      sync_meta = sm\<rparr>))"

section \<open>Resource negotiation\<close>

text \<open>
  \<^verbatim>\<open>Context.all_audio_resources\<close> and \<^verbatim>\<open>all_video_resources\<close> are generators:
  what they do between two yields happens only when the consumer asks for the next
  candidate. An item is a yielded candidate or the debug message ("No audio/video meta
  tag. Looking in comments.") that the audio generator logs on its way.
\<close>

datatype item = Yield string | LookingInComments

definition all_video_resources :: "Context \<Rightarrow> item list" where
  "all_video_resources ctx =
     (case tag_video (meta_tags (song_txt ctx)) of
        Some v \<Rightarrow> if v \<noteq> [] then [Yield v] else []
      | None \<Rightarrow> [])
     @ map Yield (all_comment_videos (details ctx))"

definition all_audio_resources :: "Context \<Rightarrow> item list" where
  "all_audio_resources ctx =
     (case tag_audio (meta_tags (song_txt ctx)) of
        Some a \<Rightarrow> if a \<noteq> [] then [Yield a] else []
      | None \<Rightarrow> [])
     @ (if \<not> truthy (tag_video (meta_tags (song_txt ctx))) then [LookingInComments] else [])
     @ all_video_resources ctx"

text \<open>The candidates of a generator, in the order it yields them.\<close>

fun candidates :: "item list \<Rightarrow> string list" where
  "candidates [] = []"
| "candidates (Yield r # rest) = r # candidates rest"
| "candidates (LookingInComments # rest) = candidates rest"

definition set_header :: "Slot \<Rightarrow> string \<Rightarrow> Context \<Rightarrow> Context" where
  "set_header slot f ctx =
     (let h = headers (song_txt ctx);
          h' = (case slot of
                  Audio \<Rightarrow> h\<lparr>h_mp3 := Some f\<rparr>
                | Video \<Rightarrow> h\<lparr>h_video := Some f\<rparr>
                | Cover \<Rightarrow> h\<lparr>h_cover := Some f\<rparr>
                | Background \<Rightarrow> h\<lparr>h_background := Some f\<rparr>)
      in ctx\<lparr>song_txt := (song_txt ctx)\<lparr>headers := h'\<rparr>\<rparr>)"

text \<open>\<^verbatim>\<open>meta and meta.resource == resource\<close>\<close>

definition unchanged :: "FileMeta option \<Rightarrow> string \<Rightarrow> FileMeta option" where
  "unchanged meta res =
     (case meta of None \<Rightarrow> None | Some m \<Rightarrow> if resource m = res then Some m else None)"

text \<open>
  \<^verbatim>\<open>if ext := resource_dl.download_audio(...)\<close>: a returned extension counts when it
  is a non-empty string.
\<close>

definition truthy_ext :: "(string \<times> content) option \<Rightarrow> (string \<times> content) option" where
  "truthy_ext r =
     (case r of
        None \<Rightarrow> None
      | Some (ext, data) \<Rightarrow> if ext \<noteq> [] then Some (ext, data) else None)"

text \<open>
  The \<^verbatim>\<open>for idx, resource in enumerate(...)\<close> loop that
  \<^verbatim>\<open>_maybe_download_audio\<close> and \<^verbatim>\<open>_maybe_download_video\<close> share word for word
  up to the slot: \<open>dl\<close> is the slot's download primitive with its options, \<open>meta\<close> the
  descriptor that \<^verbatim>\<open>synced_audio\<close> or \<^verbatim>\<open>synced_video\<close> returned before the loop.
  A successful download has put its bytes at \<^verbatim>\<open>file_path(ext=ext)\<close>; a failed one
  leaves the directory as it was (modelled from the spec: "download audio/video resource
  to path, return final extension or failure").
\<close>

fun download_loop ::
  "Slot \<Rightarrow> (string \<Rightarrow> (string \<times> content) option) \<Rightarrow> FileMeta option \<Rightarrow> Context \<Rightarrow>
   FileSystem \<Rightarrow> nat \<Rightarrow> item list \<Rightarrow> Context \<times> FileSystem \<times> event list" where
  "download_loop slot dl meta ctx fs idx [] = (ctx, fs, [Log (Failed slot)])"
| "download_loop slot dl meta ctx fs idx (LookingInComments # rest) =
     (case download_loop slot dl meta ctx fs idx rest of
        (ctx', fs', es) \<Rightarrow> (ctx', fs', Log NoAudioVideoMetaTag # es))"
| "download_loop slot dl meta ctx fs idx (Yield res # rest) =
     (case unchanged meta res of
        Some m \<Rightarrow> (set_header slot (fname m) ctx, fs, [Log (Unchanged slot)])
      | None \<Rightarrow>
          if idx > 9 then (ctx, fs, [Log (Failed slot)])
          else
            (case truthy_ext (dl res) of
               Some (ext, data) \<Rightarrow>
                 (let path = file_path (locations ctx) [] ext;
                      ctx1 = ctx\<lparr>sync_meta := set_slot_meta slot path res (sync_meta ctx)\<rparr>
                  in (set_header slot (name path) ctx1, write_file fs path data,
                      [Download slot res, Log (Success slot)]))
             | None \<Rightarrow>
                 (case download_loop slot dl meta ctx fs (Suc idx) rest of
                    (ctx', fs', es) \<Rightarrow> (ctx', fs', Download slot res # es))))"

definition maybe_download_audio ::
  "Env \<Rightarrow> Context \<Rightarrow> FileSystem \<Rightarrow> Context \<times> FileSystem \<times> event list" where
  "maybe_download_audio env ctx fs =
     (case audio_options (options ctx) of
        None \<Rightarrow> (ctx, fs, [])
      | Some opts \<Rightarrow>
          download_loop Audio (\<lambda>res. download_audio env res opts)
            (synced Audio (sync_meta ctx) fs (dir_path (locations ctx)))
            ctx fs 0 (all_audio_resources ctx))"

definition maybe_download_video ::
  "Env \<Rightarrow> Context \<Rightarrow> FileSystem \<Rightarrow> Context \<times> FileSystem \<times> event list" where
  "maybe_download_video env ctx fs =
     (case video_options (options ctx) of
        None \<Rightarrow> (ctx, fs, [])
      | Some opts \<Rightarrow>
          if audio_only (meta_tags (song_txt ctx)) then (ctx, fs, [])
          else
            download_loop Video (\<lambda>res. download_video env res opts)
              (synced Video (sync_meta ctx) fs (dir_path (locations ctx)))
              ctx fs 0 (all_video_resources ctx))"

text \<open>\<^verbatim>\<open>Context.cover_url\<close> and \<^verbatim>\<open>Context.background_url\<close>, with what they log.\<close>

definition cover_url :: "Context \<Rightarrow> string option \<times> event list" where
  "cover_url ctx =
     (case tag_cover (meta_tags (song_txt ctx)) of
        Some t \<Rightarrow> (Some (source_url t), [Log (UrlFromVideoParams Cover)])
      | None \<Rightarrow>
          if truthy (d_cover_url (details ctx))
          then (d_cover_url (details ctx), [Log FallbackToUsdbCover])
          else (None, []))"

definition background_url :: "Context \<Rightarrow> string option \<times> event list" where
  "background_url ctx =
     (case tag_background (meta_tags (song_txt ctx)) of
        Some t \<Rightarrow> (Some (source_url t), [Log (UrlFromVideoParams Background)])
      | None \<Rightarrow> (None, []))"

definition slot_tag :: "Slot \<Rightarrow> MetaTags \<Rightarrow> ImageMetaTags option" where
  "slot_tag slot tags = (case slot of Background \<Rightarrow> tag_background tags | _ \<Rightarrow> tag_cover tags)"

text \<open>
  What \<^verbatim>\<open>_maybe_download_cover\<close> and \<^verbatim>\<open>_maybe_download_background\<close> share once
  they have a URL: the descriptor is reused when the meta tag recorded in the sync meta
  equals the current one and the recorded file is there, and the image is downloaded
  otherwise.
\<close>

definition download_image ::
  "Env \<Rightarrow> Slot \<Rightarrow> nat option \<Rightarrow> string \<Rightarrow> Context \<Rightarrow> FileSystem \<Rightarrow>
   Context \<times> FileSystem \<times> event list" where
  "download_image env slot max_width url ctx fs =
     (case (if slot_tag slot (sm_meta_tags (sync_meta ctx)) = slot_tag slot (meta_tags (song_txt ctx))
            then synced slot (sync_meta ctx) fs (dir_path (locations ctx)) else None) of
        Some m \<Rightarrow> (set_header slot (fname m) ctx, fs, [Log (Unchanged slot)])
      | None \<Rightarrow>
          (case download_and_process_image env url (slot_tag slot (meta_tags (song_txt ctx)))
                  slot max_width of
             Some (file, data) \<Rightarrow>
               (let path = FilePath (dir_path (locations ctx)) file;
                    ctx1 = set_header slot (name path) ctx
                in (ctx1\<lparr>sync_meta := set_slot_meta slot path url (sync_meta ctx1)\<rparr>,
                    write_file fs path data,
                    [Download slot url, Log (Success slot)]))
           | None \<Rightarrow> (ctx, fs, [Download slot url, Log (Failed slot)])))"

definition maybe_download_cover ::
  "Env \<Rightarrow> Context \<Rightarrow> FileSystem \<Rightarrow> Context \<times> FileSystem \<times> event list" where
  "maybe_download_cover env ctx fs =
     (case cover (options ctx) of
        None \<Rightarrow> (ctx, fs, [])
      | Some opts \<Rightarrow>
          (case cover_url ctx of
             (Some url, es) \<Rightarrow>
               if url = [] then (ctx, fs, es @ [Log (NoResourceFound Cover)])
               else
                 (case download_image env Cover (Some (max_size opts)) url ctx fs of
                    (ctx', fs', es') \<Rightarrow> (ctx', fs', es @ es'))
           | (None, es) \<Rightarrow> (ctx, fs, es @ [Log (NoResourceFound Cover)])))"

text \<open>
  Modelled from the spec: \<^verbatim>\<open>BackgroundOptions.download_background\<close> is not among
  the sources; the background "is skipped unless policy says backgrounds are wanted when
  no video exists (configurable: only if no video downloaded)".
\<close>

definition download_background :: "BackgroundOptions \<Rightarrow> bool \<Rightarrow> bool" where
  "download_background opts has_video = (even_with_video opts \<or> \<not> has_video)"

definition maybe_download_background ::
  "Env \<Rightarrow> Context \<Rightarrow> FileSystem \<Rightarrow> Context \<times> FileSystem \<times> event list" where
  "maybe_download_background env ctx fs =
     (case background_options (options ctx) of
        None \<Rightarrow> (ctx, fs, [])
      | Some opts \<Rightarrow>
          if \<not> download_background opts (truthy (h_video (headers (song_txt ctx))))
          then (ctx, fs, [])
          else
            (case background_url ctx of
               (Some url, es) \<Rightarrow>
                 if url = [] then (ctx, fs, es @ [Log (NoResourceFound Background)])
                 else
                   (case download_image env Background None url ctx fs of
                      (ctx', fs', es') \<Rightarrow> (ctx', fs', es @ es'))
             | (None, es) \<Rightarrow> (ctx, fs, es @ [Log (NoResourceFound Background)])))"

text \<open>The three parts of what a step returns.\<close>

definition ctx_of :: "Context \<times> FileSystem \<times> event list \<Rightarrow> Context" where
  "ctx_of r = fst r"

definition fs_of :: "Context \<times> FileSystem \<times> event list \<Rightarrow> FileSystem" where
  "fs_of r = fst (snd r)"

definition events_of :: "Context \<times> FileSystem \<times> event list \<Rightarrow> event list" where
  "events_of r = snd (snd r)"

text \<open>The resources that a sequence of events called a slot's download primitive on.\<close>

fun downloads :: "Slot \<Rightarrow> event list \<Rightarrow> string list" where
  "downloads slot [] = []"
| "downloads slot (Download s r # es) =
     (if s = slot then r # downloads slot es else downloads slot es)"
| "downloads slot (e # es) = downloads slot es"

section \<open>Writing the song files\<close>

text \<open>\<^verbatim>\<open>_maybe_write_txt\<close> and \<^verbatim>\<open>_write_sync_meta\<close>\<close>

definition maybe_write_txt :: "Context \<Rightarrow> FileSystem \<Rightarrow> Context \<times> FileSystem \<times> event list" where
  "maybe_write_txt ctx fs =
     (case txt_options (options ctx) of
        None \<Rightarrow> (ctx, fs, [])
      | Some opts \<Rightarrow>
          (let path = file_path (locations ctx) [] ''txt''
           in (ctx\<lparr>sync_meta := set_txt_meta path (sync_meta ctx)\<rparr>,
               write_file fs path (File (Txt (song_txt ctx) (encoding opts) (newline opts)) []),
               [Log CreatedSongTxt])))"

definition write_sync_meta :: "Context \<Rightarrow> FileSystem \<Rightarrow> FileSystem" where
  "write_sync_meta ctx fs = to_file (sync_meta ctx) (dir_path (locations ctx)) fs"

text \<open>
  \<^verbatim>\<open>Path.read_bytes()\<close> of the recorded images that are set, in order; a missing file
  raises.
\<close>

fun read_images :: "FileSystem \<Rightarrow> Locations \<Rightarrow> FileMeta option list \<Rightarrow> error + content list" where
  "read_images fs loc [] = Inr []"
| "read_images fs loc (None # rest) = read_images fs loc rest"
| "read_images fs loc (Some img # rest) =
     (case read_file fs (file_path loc (fname img) []) of
        None \<Rightarrow> Inl FileNotFoundError
      | Some c \<Rightarrow> bind_err (read_images fs loc rest) (\<lambda>cs. Inr (c # cs)))"

text \<open>A tag set only when the header has a value: \<^verbatim>\<open>if ctx.txt.headers.genre: ...\<close>\<close>

definition set_if ::
  "string \<Rightarrow> string option \<Rightarrow> (string \<times> tag_value) list \<Rightarrow> (string \<times> tag_value) list" where
  "set_if k v tags =
     (case v of
        None \<Rightarrow> tags
      | Some s \<Rightarrow> if s \<noteq> [] then AList.update k (Text s) tags else tags)"

text \<open>
  \<^verbatim>\<open>_write_m4a_tags\<close>. \<^verbatim>\<open>MP4(audiofile)\<close> raises for a file that is missing or
  is no media file; the tags are changed in memory and saved at the end, and only when
  the file has tags already (\<^verbatim>\<open>if m4a.tags:\<close>).
\<close>

definition write_m4a_tags :: "FilePath \<Rightarrow> Context \<Rightarrow> bool \<Rightarrow> FileSystem \<Rightarrow> error + FileSystem" where
  "write_m4a_tags audiofile ctx artwork fs =
     (case read_file fs audiofile of
        Some (File (Bytes b) tags) \<Rightarrow>
          if tags = [] then Inr fs
          else
            (case sm_audio (sync_meta ctx) of
               None \<Rightarrow> Inl AttributeError
             | Some audio \<Rightarrow>
                 (let h = headers (song_txt ctx);
                      t1 = AList.update ''ART'' (Text (h_artist h)) tags;
                      t2 = AList.update ''nam'' (Text (h_title h)) t1;
                      t3 = set_if ''gen'' (h_genre h) t2;
                      t4 = set_if ''day'' (h_year h) t3;
                      t5 = AList.update ''lyr'' (Text (unsynchronized_lyrics (song_txt ctx))) t4;
                      t6 = AList.update ''cmt'' (Text (resource audio)) t5
                  in bind_err
                       (if artwork
                        then read_images fs (locations ctx)
                               [sm_cover (sync_meta ctx), sm_background (sync_meta ctx)]
                        else Inr [])
                       (\<lambda>covers.
                          Inr (write_file fs audiofile
                                 (File (Bytes b) (AList.update ''covr'' (Pictures covers) t6))))))
      | _ \<Rightarrow> Inl MutagenError)"

text \<open>
  \<^verbatim>\<open>_write_mp3_tags\<close>. The tags start empty (\<^verbatim>\<open>ID3()\<close>); the language lookup
  comes first and raises for an unknown language; saving puts the tags on the file's
  payload, and on an empty one when the file is not there.
\<close>

definition write_mp3_tags ::
  "Env \<Rightarrow> FilePath \<Rightarrow> Context \<Rightarrow> bool \<Rightarrow> FileSystem \<Rightarrow> error + FileSystem" where
  "write_mp3_tags env audiofile ctx artwork fs =
     (let h = headers (song_txt ctx) in
      case lang_pt2b env (h_language h) of
        None \<Rightarrow> Inl InvalidLanguageValue
      | Some lang \<Rightarrow>
          (case sm_audio (sync_meta ctx) of
             None \<Rightarrow> Inl AttributeError
           | Some audio \<Rightarrow>
               (let t1 = AList.update ''TPE1'' (Text (h_artist h)) [];
                    t2 = AList.update ''TIT2'' (Text (h_title h)) t1;
                    t3 = AList.update ''TLAN'' (Text lang) t2;
                    t4 = set_if ''TCON'' (h_genre h) t3;
                    t5 = set_if ''TDRC'' (h_year h) t4;
                    t6 = AList.update (''USLT::'' @ [CHR 0x27] @ lang @ [CHR 0x27])
                           (Text (unsynchronized_lyrics (song_txt ctx))) t5;
                    t7 = AList.update ''SYLT'' (Text (synchronized_lyrics (song_txt ctx))) t6;
                    t8 = AList.update ''COMM'' (Text (resource audio)) t7
                in bind_err
                     (case (if artwork then sm_cover (sync_meta ctx) else None) of
                        None \<Rightarrow> Inr t8
                      | Some img \<Rightarrow>
                          (case read_file fs (file_path (locations ctx) (fname img) []) of
                             None \<Rightarrow> Inl FileNotFoundError
                           | Some c \<Rightarrow>
                               Inr (AList.update (''APIC:Source: '' @ resource img)
                                      (Pictures [c]) t8)))
                     (\<lambda>tags.
                        Inr (write_file fs audiofile
                               (case read_file fs audiofile of
                                  None \<Rightarrow> File (Bytes []) tags
                                | Some (File pl old) \<Rightarrow> File pl tags))))))"

text \<open>\<^verbatim>\<open>_maybe_write_audio_tags\<close>\<close>

definition maybe_write_audio_tags :: "Env \<Rightarrow> Context \<Rightarrow> FileSystem \<Rightarrow> error + FileSystem" where
  "maybe_write_audio_tags env ctx fs =
     (case audio_options (options ctx) of
        None \<Rightarrow> Inr fs
      | Some opts \<Rightarrow>
          (case sm_audio (sync_meta ctx) of
             None \<Rightarrow> Inr fs
           | Some meta \<Rightarrow>
               (let audiofile = file_path (locations ctx) (fname meta) [] in
                if path_suffix (name audiofile) = ''.m4a''
                then write_m4a_tags audiofile ctx (embed_artwork opts) fs
                else if path_suffix (name audiofile) = ''.mp3''
                then write_mp3_tags env audiofile ctx (embed_artwork opts) fs
                else Inr fs)))"

section \<open>The song loader\<close>

text \<open>
  \<^verbatim>\<open>SongLoader.run\<close>. The result is the error that left \<^verbatim>\<open>run\<close>, if one did, the
  file system as the run left it, and the events of the run in order. \<^verbatim>\<open>run\<close> has no
  exception handler: an error raised by a step ends the run where it stands.
\<close>

definition run ::
  "Env \<Rightarrow> Options \<Rightarrow> DownloadInfo \<Rightarrow> FileSystem \<Rightarrow> error option \<times> FileSystem \<times> event list" where
  "run env opts info fs =
     (case get_usdb_details env (song_id info) of
        None \<Rightarrow>
          (None, fs,
           [OnStart (song_id info), Log CouldNotFindSong,
            OnFinish \<lparr>r_song_id = song_id info, files = None\<rparr>])
      | Some dets \<Rightarrow>
          (case Context_new env dets opts info fs of
             None \<Rightarrow>
               (None, fs,
                [OnStart (song_id info), Log FoundOnUsdb, Log AbortedNotLoggedIn,
                 OnFinish \<lparr>r_song_id = song_id info, files = None\<rparr>])
           | Some ctx0 \<Rightarrow>
               (let fs1 = mkdir fs (dir_path (locations ctx0));
                    es0 = [OnStart (song_id info), Log FoundOnUsdb]
                in case ensure_correct_paths (locations ctx0) (sync_meta ctx0) fs1 of
                     Inl e \<Rightarrow> (Some e, fs1, es0)
                   | Inr (loc, sm, fs2) \<Rightarrow>
                       (let ctx1 = ctx0\<lparr>locations := loc, sync_meta := sm\<rparr>;
                            a = maybe_download_audio env ctx1 fs2;
                            v = maybe_download_video env (ctx_of a) (fs_of a);
                            c = maybe_download_cover env (ctx_of v) (fs_of v);
                            b = maybe_download_background env (ctx_of c) (fs_of c);
                            t = maybe_write_txt (ctx_of b) (fs_of b);
                            ctx = ctx_of t;
                            fs3 = write_sync_meta ctx (fs_of t);
                            es = es0 @ events_of a @ events_of v @ events_of c @ events_of b
                                   @ events_of t
                        in case maybe_write_audio_tags env ctx fs3 of
                             Inl e \<Rightarrow> (Some e, fs3, es)
                           | Inr fs4 \<Rightarrow>
                               (None, fs4,
                                es @ [Log AllDone,
                                      OnFinish \<lparr>r_song_id = song_id info,
                                                files = Some (LocalFiles
                                                  (loc_meta_path (locations ctx))
                                                  (sync_meta ctx))\<rparr>])))))"

text \<open>
  \<^verbatim>\<open>download_songs\<close>: one worker for each info, in order, all with the options read at
  the call; each is handed to the global thread pool.
\<close>

record SongLoader =
  sl_info :: DownloadInfo
  sl_options :: Options

definition download_songs :: "Options \<Rightarrow> DownloadInfo list \<Rightarrow> SongLoader list" where
  "download_songs opts infos = map (\<lambda>info. \<lparr>sl_info = info, sl_options = opts\<rparr>) infos"

definition run_worker ::
  "Env \<Rightarrow> SongLoader \<Rightarrow> FileSystem \<Rightarrow> error option \<times> FileSystem \<times> event list" where
  "run_worker env w fs = run env (sl_options w) (sl_info w) fs"

text \<open>The three parts of what a run returns.\<close>

definition raised :: "error option \<times> FileSystem \<times> event list \<Rightarrow> error option" where
  "raised r = fst r"

definition final_fs :: "error option \<times> FileSystem \<times> event list \<Rightarrow> FileSystem" where
  "final_fs r = fst (snd r)"

definition trace :: "error option \<times> FileSystem \<times> event list \<Rightarrow> event list" where
  "trace r = snd (snd r)"

text \<open>How often a run called \<^verbatim>\<open>on_finish\<close>, and with what.\<close>

fun finishes :: "event list \<Rightarrow> DownloadResult list" where
  "finishes [] = []"
| "finishes (OnFinish r # es) = r # finishes es"
| "finishes (e # es) = finishes es"

section \<open>The song table\<close>

text \<open>
  What \<^verbatim>\<open>song_table.py\<close> reads of a \<^verbatim>\<open>UsdbSong\<close>: its id, its sync meta (with the
  path of the song folder and the pinned flag) and its download status. The status enum
  is not among the sources: \<^verbatim>\<open>PENDING\<close> is the member that the table sets, and
  \<^verbatim>\<open>can_be_downloaded\<close> is a parameter of the model.
\<close>

record TableSyncMeta =
  sm_path :: string
  sm_pinned :: bool

datatype DownloadStatus = PENDING | OtherStatus nat

record UsdbSong =
  us_song_id :: SongId
  us_sync_meta :: "TableSyncMeta option"
  status :: DownloadStatus

datatype table_event =
    SongChanged SongId
  | DownloadsRequested nat
  | TableLog SongId LogMsg
  | SendToTrash string
  | DeleteSyncMeta SongId

text \<open>
  A Python call binds its positional arguments to the parameters of the function:
  \<^verbatim>\<open>download_songs(infos, on_start, on_finish)\<close> has three parameters, none with a
  default, so a call with another number of arguments raises \<^verbatim>\<open>TypeError\<close> before
  the body runs.
\<close>

datatype pyarg = SongsArg "UsdbSong list" | InfosArg "DownloadInfo list" | CallbackArg

definition call_download_songs :: "Options \<Rightarrow> pyarg list \<Rightarrow> error + SongLoader list" where
  "call_download_songs opts args =
     (case args of
        [InfosArg infos, CallbackArg, CallbackArg] \<Rightarrow> Inr (download_songs opts infos)
      | [a1, a2, a3] \<Rightarrow> Inl AttributeError
      | _ \<Rightarrow> Inl TypeError)"

text \<open>
  The loop of \<^verbatim>\<open>SongTable._download\<close> over the selected ids: the error, if the
  assertion failed, the songs put on \<^verbatim>\<open>to_download\<close> and the events posted.
\<close>

fun collect ::
  "(DownloadStatus \<Rightarrow> bool) \<Rightarrow> (SongId \<Rightarrow> UsdbSong option) \<Rightarrow> SongId list \<Rightarrow>
   error option \<times> UsdbSong list \<times> table_event list" where
  "collect can_be_downloaded get [] = (None, [], [])"
| "collect can_be_downloaded get (i # ids) =
     (case get i of
        None \<Rightarrow> (Some AssertionError, [], [])
      | Some song \<Rightarrow>
          (case collect can_be_downloaded get ids of
             (err, batch, es) \<Rightarrow>
               if (case us_sync_meta song of None \<Rightarrow> False | Some m \<Rightarrow> sm_pinned m)
               then (err, batch, TableLog (us_song_id song) NotDownloadingPinned # es)
               else if can_be_downloaded (status song)
               then (err, song\<lparr>status := PENDING\<rparr> # batch, SongChanged (us_song_id song) # es)
               else (err, batch, es)))"

text \<open>
  \<^verbatim>\<open>SongTable._download\<close>: the error that left it, if one did, the events posted and
  the workers that the scheduler was given.
\<close>

definition download ::
  "Options \<Rightarrow> (DownloadStatus \<Rightarrow> bool) \<Rightarrow> (SongId \<Rightarrow> UsdbSong option) \<Rightarrow> SongId list \<Rightarrow>
   error option \<times> table_event list \<times> SongLoader list" where
  "download opts can_be_downloaded get ids =
     (case collect can_be_downloaded get ids of
        (Some e, to_download, es) \<Rightarrow> (Some e, es, [])
      | (None, to_download, es) \<Rightarrow>
          if to_download \<noteq> []
          then (case call_download_songs opts [SongsArg to_download] of
                  Inl e \<Rightarrow> (Some e, es @ [DownloadsRequested (length to_download)], [])
                | Inr workers \<Rightarrow>
                    (None, es @ [DownloadsRequested (length to_download)], workers))
          else (None, es, []))"

text \<open>
  Modelled from the spec: \<^verbatim>\<open>UsdbSong.is_pinned\<close> is not among the sources; a song is
  pinned when its sync metadata has "the pinned flag" set, which is the test that
  \<^verbatim>\<open>_download\<close> spells out.
\<close>

definition is_pinned :: "UsdbSong \<Rightarrow> bool" where
  "is_pinned song = (case us_sync_meta song of None \<Rightarrow> False | Some m \<Rightarrow> sm_pinned m)"

text \<open>\<^verbatim>\<open>SongTable.selected_songs\<close> and \<^verbatim>\<open>SongTable.delete_selected_songs\<close>\<close>

definition selected_songs :: "(SongId \<Rightarrow> UsdbSong option) \<Rightarrow> SongId list \<Rightarrow> UsdbSong list" where
  "selected_songs get ids = List.map_filter get ids"

fun delete_songs :: "UsdbSong list \<Rightarrow> table_event list" where
  "delete_songs [] = []"
| "delete_songs (song # songs) =
     (case us_sync_meta song of
        None \<Rightarrow> delete_songs songs
      | Some m \<Rightarrow>
          if is_pinned song
          then TableLog (us_song_id song) NotTrashingPinned # delete_songs songs
          else SendToTrash (sm_path m) # DeleteSyncMeta (us_song_id song)
                 # TableLog (us_song_id song) TrashedSongFolder # delete_songs songs)"

definition delete_selected_songs ::
  "(SongId \<Rightarrow> UsdbSong option) \<Rightarrow> SongId list \<Rightarrow> table_event list" where
  "delete_selected_songs get ids = delete_songs (selected_songs get ids)"

text \<open>The folders that a sequence of table events sent to the trash.\<close>

fun trashed :: "table_event list \<Rightarrow> string list" where
  "trashed [] = []"
| "trashed (SendToTrash p # es) = p # trashed es"
| "trashed (e # es) = trashed es"

text \<open>
  What a step that only renames files inside the directory \<open>d\<close> keeps: every other
  directory, whether \<open>d\<close> is there, and the contents found in \<open>d\<close>.
\<close>

definition keeps_contents :: "DirPath \<Rightarrow> FileSystem \<Rightarrow> FileSystem \<Rightarrow> bool" where
  "keeps_contents d fs fs' =
     ((\<forall>d'. d' \<noteq> d \<longrightarrow> fmlookup fs' d' = fmlookup fs d') \<and>
      dir_exists fs' d = dir_exists fs d \<and>
      fmran' (files_of fs' d) = fmran' (files_of fs d))"

section \<open>Example data\<close>

definition ex_tags :: MetaTags where
  "ex_tags = \<lparr>tag_audio = None, tag_video = None, tag_cover = None, tag_background = None,
              audio_only = False\<rparr>"

definition ex_headers :: Headers where
  "ex_headers = \<lparr>h_artist = ''A'', h_title = ''B'', h_creator = None, h_mp3 = None,
                 h_video = None, h_cover = None, h_background = None, h_genre = None,
                 h_year = None, h_language = ''English''\<rparr>"

definition ex_txt :: "MetaTags \<Rightarrow> SongTxt" where
  "ex_txt tags = \<lparr>headers = ex_headers, meta_tags = tags, unsynchronized_lyrics = ''la'',
                  synchronized_lyrics = ''la''\<rparr>"

definition ex_details :: "string list \<Rightarrow> SongDetails" where
  "ex_details vids = \<lparr>d_song_id = 1, d_artist = ''A'', d_title = ''B'', uploader = None,
                      d_cover_url = None, all_comment_videos = vids\<rparr>"

definition ex_options :: Options where
  "ex_options = \<lparr>song_dir = ''songs'', audio_options = Some \<lparr>embed_artwork = True\<rparr>,
                 video_options = Some VideoOptions, cover = Some \<lparr>max_size = 1920\<rparr>,
                 background_options = Some \<lparr>even_with_video = True\<rparr>,
                 txt_options = Some \<lparr>encoding = ''utf_8'', newline = ''crlf''\<rparr>\<rparr>"

definition ex_dir :: DirPath where
  "ex_dir = DirPath ''songs'' ''A - B''"

definition ex_loc :: Locations where
  "ex_loc = \<lparr>loc_meta_path = FilePath ex_dir ''1.usdb'', filename_stem = ''A - B''\<rparr>"

definition ex_ctx :: "MetaTags \<Rightarrow> string list \<Rightarrow> SyncMeta \<Rightarrow> Context" where
  "ex_ctx tags vids sm = \<lparr>details = ex_details vids, options = ex_options,
                          song_txt = ex_txt tags, locations = ex_loc, sync_meta = sm\<rparr>"

definition ex_env ::
  "MetaTags \<Rightarrow> string list \<Rightarrow> (string \<Rightarrow> (string \<times> content) option) \<Rightarrow>
   (string \<Rightarrow> (string \<times> content) option) \<Rightarrow> Env" where
  "ex_env tags vids dl img =
     \<lparr>get_usdb_details = (\<lambda>sid. if sid = 1 then Some (ex_details vids) else None),
      get_notes = (\<lambda>sid. if sid = 1 then Some ''notes'' else None),
      parse = (\<lambda>s. ex_txt tags),
      sanitize_filename = (\<lambda>s. s),
      download_audio = (\<lambda>res opts. dl res),
      download_video = (\<lambda>res opts. dl res),
      download_and_process_image = (\<lambda>url tag slot width. img url),
      lang_pt2b = (\<lambda>l. if l = ''English'' then Some ''eng'' else None)\<rparr>"

definition ex_vids15 :: "string list" where
  "ex_vids15 = [''v01'', ''v02'', ''v03'', ''v04'', ''v05'', ''v06'', ''v07'', ''v08'', ''v09'',
                ''v10'', ''v11'', ''v12'', ''v13'', ''v14'', ''v15'']"

definition ex_dl3 :: "string \<Rightarrow> (string \<times> content) option" where
  "ex_dl3 res = (if res = ''c3'' then Some (''mp4'', File (Bytes ''c3 bytes'') []) else None)"

definition ex_tags_v1 :: MetaTags where
  "ex_tags_v1 = ex_tags\<lparr>tag_video := Some ''c1''\<rparr>"

definition ex_sm_c2 :: SyncMeta where
  "ex_sm_c2 = (SyncMeta_new 1 ex_tags_v1)
     \<lparr>sm_audio := Some \<lparr>fname = ''A - B.mp3'', resource = ''c2''\<rparr>,
      sm_video := Some \<lparr>fname = ''A - B.mp4'', resource = ''c2''\<rparr>\<rparr>"

definition ex_fs_c2 :: FileSystem where
  "ex_fs_c2 = fmupd ex_dir
     (fmupd ''A - B.mp3'' (File (Bytes ''old audio'') [])
       (fmupd ''A - B.mp4'' (File (Bytes ''old video'') []) fmempty)) fmempty"

definition ex_ctx_c2 :: Context where
  "ex_ctx_c2 = ex_ctx ex_tags_v1 [''c2''] ex_sm_c2"

definition ex_env_fail :: Env where
  "ex_env_fail = ex_env ex_tags_v1 [''c2''] (\<lambda>r. None) (\<lambda>r. None)"

definition ex_env_c1 :: Env where
  "ex_env_c1 = ex_env ex_tags_v1 [''c2'']
     (\<lambda>r. if r = ''c1'' then Some (''webm'', File (Bytes ''c1 bytes'') []) else None) (\<lambda>r. None)"

definition ex_sm_cover :: SyncMeta where
  "ex_sm_cover = (SyncMeta_new 1 (ex_tags\<lparr>tag_cover := Some (ImageMetaTags ''u'' [])\<rparr>))
     \<lparr>sm_cover := Some \<lparr>fname = ''A - B [CO].jpg'', resource = ''u''\<rparr>\<rparr>"

definition ex_ctx_cover :: Context where
  "ex_ctx_cover = (ex_ctx ex_tags [] ex_sm_cover)
     \<lparr>details := (ex_details [])\<lparr>d_cover_url := Some ''u''\<rparr>\<rparr>"

definition ex_fs_cover :: FileSystem where
  "ex_fs_cover = fmupd ex_dir
     (fmupd ''A - B [CO].jpg'' (File (Bytes ''old cover'') []) fmempty) fmempty"

definition ex_env_cover :: Env where
  "ex_env_cover = ex_env ex_tags [] (\<lambda>r. None)
     (\<lambda>url. if url = ''u'' then Some (''A - B [CO].jpg'', File (Bytes ''new cover'') [])
             else None)"

definition ex_song :: "SongId \<Rightarrow> bool option \<Rightarrow> UsdbSong" where
  "ex_song sid pin =
     \<lparr>us_song_id = sid,
      us_sync_meta = map_option (\<lambda>p. \<lparr>sm_path = ''songs/'' @ show_nat sid, sm_pinned = p\<rparr>) pin,
      status = OtherStatus 0\<rparr>"

definition ex_get :: "SongId \<Rightarrow> UsdbSong option" where
  "ex_get sid =
     (if sid = 1 then Some (ex_song 1 (Some True))
      else if sid = 2 then Some (ex_song 2 (Some False))
      else if sid = 3 then Some (ex_song 3 None)
      else None)"

definition ex_can_be_downloaded :: "DownloadStatus \<Rightarrow> bool" where
  "ex_can_be_downloaded st = (st \<noteq> PENDING)"

definition ex_info :: DownloadInfo where
  "ex_info = \<lparr>song_id = 1, meta_path = None\<rparr>"

definition ex_options_audio :: Options where
  "ex_options_audio = ex_options\<lparr>video_options := None, cover := None,
     background_options := None, txt_options := None\<rparr>"

definition ex_txt_lang :: "string \<Rightarrow> SongTxt" where
  "ex_txt_lang l = (ex_txt ex_tags)\<lparr>headers := ex_headers\<lparr>h_language := l\<rparr>\<rparr>"

definition ex_env_lang :: "string \<Rightarrow> Env" where
  "ex_env_lang l =
     (ex_env ex_tags [''c1''] (\<lambda>r. Some (''mp3'', File (Bytes ''audio'') [])) (\<lambda>r. None))
     \<lparr>parse := (\<lambda>s. ex_txt_lang l)\<rparr>"

definition ex_ctx_lang :: "string \<Rightarrow> Context" where
  "ex_ctx_lang l = \<lparr>details = ex_details [''c1''], options = ex_options_audio,
     song_txt = ex_txt_lang l, locations = ex_loc, sync_meta = SyncMeta_new 1 ex_tags\<rparr>"

definition ex_ctx_lang_a :: "string \<Rightarrow> Context" where
  "ex_ctx_lang_a l = set_header Audio ''A - B.mp3''
     ((ex_ctx_lang l)\<lparr>sync_meta := (SyncMeta_new 1 ex_tags)
        \<lparr>sm_audio := Some \<lparr>fname = ''A - B.mp3'', resource = ''c1''\<rparr>\<rparr>\<rparr>)"

definition ex_fs_a :: FileSystem where
  "ex_fs_a = write_file (fmupd ex_dir fmempty fmempty) (FilePath ex_dir ''A - B.mp3'')
     (File (Bytes ''audio'') [])"

definition ex_fs_m :: FileSystem where
  "ex_fs_m = write_file ex_fs_a (FilePath ex_dir ''1.usdb'')
     (File (Meta ((SyncMeta_new 1 ex_tags)
        \<lparr>sm_audio := Some \<lparr>fname = ''A - B.mp3'', resource = ''c1''\<rparr>\<rparr>)) [])"

definition ex_dir_old :: DirPath where
  "ex_dir_old = DirPath ''songs'' ''Old''"

definition ex_loc_old :: Locations where
  "ex_loc_old = \<lparr>loc_meta_path = FilePath ex_dir_old ''1.usdb'', filename_stem = ''A - B''\<rparr>"

definition ex_sm_old :: SyncMeta where
  "ex_sm_old = (SyncMeta_new 1 ex_tags)
     \<lparr>sm_audio := Some \<lparr>fname = ''Old.mp3'', resource = ''c1''\<rparr>\<rparr>"

definition ex_files_old :: Files where
  "ex_files_old = fmupd ''Old.mp3'' (File (Bytes ''audio'') [])
     (fmupd ''1.usdb'' (File (Meta ex_sm_old) []) fmempty)"

definition ex_fs_old :: FileSystem where
  "ex_fs_old = fmupd ex_dir_old ex_files_old fmempty"

definition ex_fs_old2 :: FileSystem where
  "ex_fs_old2 = fmupd ex_dir_old
     (fmupd ''A - B.mp3'' (File (Bytes ''other'') []) ex_files_old) fmempty"

definition ex_info_old :: DownloadInfo where
  "ex_info_old = \<lparr>song_id = 1, meta_path = Some (FilePath ex_dir_old ''1.usdb'')\<rparr>"

definition ex_loc_new :: Locations where
  "ex_loc_new = ex_loc_old\<lparr>loc_meta_path := FilePath ex_dir ''1.usdb''\<rparr>"

definition ex_fs_new2 :: FileSystem where
  "ex_fs_new2 = fmupd ex_dir (fmupd ''A - B.mp3'' (File (Bytes ''other'') []) ex_files_old) fmempty"

definition ex_ctx_old :: "string \<Rightarrow> Context" where
  "ex_ctx_old l = \<lparr>details = ex_details [''c1''], options = ex_options_audio,
     song_txt = ex_txt_lang l, locations = ex_loc_old, sync_meta = ex_sm_old\<rparr>"

definition ex_ctx_old_a :: "string \<Rightarrow> Context" where
  "ex_ctx_old_a l = set_header Audio ''Old.mp3''
     ((ex_ctx_old l)\<lparr>locations := ex_loc_new, sync_meta := ex_sm_old\<rparr>)"

section \<open>Properties of the download loop\<close>

lemma loop_bound:
  "length (downloads s (events_of (download_loop slot dl meta ctx fs idx items))) \<le> 10 - idx"
  by (induction slot dl meta ctx fs idx items rule: download_loop.induct)
     (auto simp: events_of_def Let_def split: prod.splits option.splits)

lemma loop_all_fail:
  "\<forall>r\<in>set (candidates items). unchanged meta r = None \<and> truthy_ext (dl r) = None \<Longrightarrow>
   ctx_of (download_loop slot dl meta ctx fs idx items) = ctx \<and>
   fs_of (download_loop slot dl meta ctx fs idx items) = fs \<and>
   downloads slot (events_of (download_loop slot dl meta ctx fs idx items))
     = take (10 - idx) (candidates items)"
  by (induction slot dl meta ctx fs idx items rule: download_loop.induct)
     (auto simp: events_of_def ctx_of_def fs_of_def Let_def Suc_diff_le take_Cons'
           split: prod.splits option.splits)

lemma loop_success:
  "candidates items = pre @ c # post \<Longrightarrow>
   \<forall>r\<in>set pre. unchanged meta r = None \<and> truthy_ext (dl r) = None \<Longrightarrow>
   unchanged meta c = None \<Longrightarrow> truthy_ext (dl c) = Some (ext, data) \<Longrightarrow>
   idx + length pre \<le> 9 \<Longrightarrow>
   ctx_of (download_loop slot dl meta ctx fs idx items) =
     set_header slot (name (file_path (locations ctx) [] ext))
       (ctx\<lparr>sync_meta := set_slot_meta slot (file_path (locations ctx) [] ext) c (sync_meta ctx)\<rparr>) \<and>
   fs_of (download_loop slot dl meta ctx fs idx items) =
     write_file fs (file_path (locations ctx) [] ext) data \<and>
   downloads slot (events_of (download_loop slot dl meta ctx fs idx items)) = pre @ [c] \<and>
   Log (Success slot) \<in> set (events_of (download_loop slot dl meta ctx fs idx items)) \<and>
   Log (Unchanged slot) \<notin> set (events_of (download_loop slot dl meta ctx fs idx items))"
proof (induction slot dl meta ctx fs idx items arbitrary: pre rule: download_loop.induct)
  case (1 slot dl meta ctx fs idx)
  then show ?case by simp
next
  case (2 slot dl meta ctx fs idx rest)
  then show ?case
    by (auto simp: events_of_def ctx_of_def fs_of_def split: prod.splits)
next
  case (3 slot dl meta ctx fs idx res rest)
  show ?case
  proof (cases pre)
    case Nil
    with 3 show ?thesis
      by (auto simp: events_of_def ctx_of_def fs_of_def Let_def)
  next
    case (Cons p pre')
    with 3(2-) have res: "res = p" "candidates rest = pre' @ c # post"
      "unchanged meta res = None" "truthy_ext (dl res) = None" "\<not> 9 < idx"
      by auto
    have "Suc idx + length pre' \<le> 9" using 3(6) Cons by simp
    from 3(1)[OF res(3) res(5) res(4) res(2) _ 3(4) 3(5) this] 3(3) Cons
    show ?thesis using res
      by (auto simp: events_of_def ctx_of_def fs_of_def split: prod.splits)
  qed
qed

lemma loop_reuse:
  "candidates items = pre @ c # post \<Longrightarrow>
   \<forall>r\<in>set pre. unchanged meta r = None \<and> truthy_ext (dl r) = None \<Longrightarrow>
   unchanged meta c = Some m \<Longrightarrow>
   idx + length pre \<le> 10 \<Longrightarrow>
   ctx_of (download_loop slot dl meta ctx fs idx items) = set_header slot (fname m) ctx \<and>
   fs_of (download_loop slot dl meta ctx fs idx items) = fs \<and>
   downloads slot (events_of (download_loop slot dl meta ctx fs idx items)) = pre \<and>
   Log (Unchanged slot) \<in> set (events_of (download_loop slot dl meta ctx fs idx items))"
proof (induction slot dl meta ctx fs idx items arbitrary: pre rule: download_loop.induct)
  case (1 slot dl meta ctx fs idx)
  then show ?case by simp
next
  case (2 slot dl meta ctx fs idx rest)
  then show ?case
    by (auto simp: events_of_def ctx_of_def fs_of_def split: prod.splits)
next
  case (3 slot dl meta ctx fs idx res rest)
  show ?case
  proof (cases pre)
    case Nil
    with 3 show ?thesis
      by (auto simp: events_of_def ctx_of_def fs_of_def Let_def)
  next
    case (Cons p pre')
    with 3(2-) have res: "res = p" "candidates rest = pre' @ c # post"
      "unchanged meta res = None" "truthy_ext (dl res) = None" "\<not> 9 < idx"
      by auto
    have "Suc idx + length pre' \<le> 10" using 3(5) Cons by simp
    from 3(1)[OF res(3) res(5) res(4) res(2) _ 3(4) this] 3(3) Cons
    show ?thesis using res
      by (auto simp: events_of_def ctx_of_def fs_of_def split: prod.splits)
  qed
qed

lemma loop_unchanged_only_if:
  "Log (Unchanged slot) \<in> set (events_of (download_loop slot dl meta ctx fs idx items)) \<Longrightarrow>
   \<exists>pre c post m. candidates items = pre @ c # post \<and>
     (\<forall>r\<in>set pre. unchanged meta r = None \<and> truthy_ext (dl r) = None) \<and>
     unchanged meta c = Some m \<and> (pre = [] \<or> idx + length pre \<le> 10)"
proof (induction slot dl meta ctx fs idx items rule: download_loop.induct)
  case (1 slot dl meta ctx fs idx)
  then show ?case by (simp add: events_of_def)
next
  case (2 slot dl meta ctx fs idx rest)
  then show ?case
    by (auto simp: events_of_def split: prod.splits)
next
  case (3 slot dl meta ctx fs idx res rest)
  show ?case
  proof (cases "unchanged meta res")
    case (Some m)
    then have "candidates (Yield res # rest) = [] @ res # candidates rest \<and>
      (\<forall>r\<in>set []. unchanged meta r = None \<and> truthy_ext (dl r) = None) \<and>
      unchanged meta res = Some m \<and> (([]::string list) = [] \<or> idx + length ([]::string list) \<le> 10)"
      using 3(2) by (auto simp: events_of_def split: if_splits)
    then show ?thesis by blast
  next
    case None
    with 3(2) have a: "\<not> 9 < idx" "truthy_ext (dl res) = None"
      by (auto simp: events_of_def Let_def split: if_splits option.splits)
    with None 3(2) have "Log (Unchanged slot) \<in>
        set (events_of (download_loop slot dl meta ctx fs (Suc idx) rest))"
      by (auto simp: events_of_def split: prod.splits)
    from 3(1)[OF None a this] obtain pre c post m where
      p: "candidates rest = pre @ c # post"
         "\<forall>r\<in>set pre. unchanged meta r = None \<and> truthy_ext (dl r) = None"
         "unchanged meta c = Some m" "pre = [] \<or> Suc idx + length pre \<le> 10"
      by blast
    have "candidates (Yield res # rest) = (res # pre) @ c # post \<and>
      (\<forall>r\<in>set (res # pre). unchanged meta r = None \<and> truthy_ext (dl r) = None) \<and>
      unchanged meta c = Some m \<and> (res # pre = [] \<or> idx + length (res # pre) \<le> 10)"
      using p None a by auto
    then show ?thesis by blast
  qed
qed

lemma loop_downloads_unmatched:
  "r \<in> set (downloads s (events_of (download_loop slot dl meta ctx fs idx items))) \<Longrightarrow>
   s = slot \<and> unchanged meta r = None \<and> r \<in> set (candidates items)"
  by (induction slot dl meta ctx fs idx items rule: download_loop.induct)
     (auto simp: events_of_def Let_def split: prod.splits option.splits if_splits)

lemma loop_fs_changed:
  "downloads slot (events_of (download_loop slot dl meta ctx fs idx items)) = [] \<Longrightarrow>
   fs_of (download_loop slot dl meta ctx fs idx items) = fs"
  by (induction slot dl meta ctx fs idx items rule: download_loop.induct)
     (auto simp: events_of_def fs_of_def Let_def split: prod.splits option.splits if_splits)

lemma unchanged_Some_iff: "unchanged meta r = Some m \<longleftrightarrow> meta = Some m \<and> resource m = r"
  by (auto simp: unchanged_def split: option.splits)

lemma unchanged_None_iff: "unchanged meta r = None \<longleftrightarrow> (\<forall>m. meta = Some m \<longrightarrow> resource m \<noteq> r)"
  by (auto simp: unchanged_def split: option.splits)

lemma truthy_ext_Some: "truthy_ext r = Some (e, d) \<Longrightarrow> e \<noteq> [] \<and> r = Some (e, d)"
  by (auto simp: truthy_ext_def split: option.splits if_splits)

lemma read_write_file:
  "read_file (write_file fs p c) q = (if q = p then Some c else read_file fs q)"
  by (cases p; cases q) (auto simp: read_file_def write_file_def files_of_def)

lemma file_exists_write_file: "file_exists (write_file fs p c) q = (q = p \<or> file_exists fs q)"
  by (simp add: file_exists_def read_write_file)

lemmas ex_simps = ex_ctx_def ex_env_def ex_options_def ex_txt_def ex_tags_def ex_headers_def
  ex_details_def ex_loc_def ex_dir_def

lemmas slot_simps = all_audio_resources_def all_video_resources_def synced_def slot_meta_def
  SyncMeta_new_def unchanged_def truthy_ext_def dir_path_def file_exists_def read_file_def
  files_of_def

section \<open>Bounded attempts and fallback order\<close>

text \<open>
  C4. In an audio or video slot at most 10 candidates reach the download primitive; when
  every download fails and no candidate is the recorded resource, the primitive is called
  on exactly the first ten candidates, so on 10 of 15.
\<close>

theorem bounded_attempts:
  "length (downloads Audio (events_of (maybe_download_audio env ctx fs))) \<le> 10 \<and>
   length (downloads Video (events_of (maybe_download_video env ctx fs))) \<le> 10 \<and>
   (audio_options (options ctx) = Some aopts \<and>
    (\<forall>r\<in>set (candidates (all_audio_resources ctx)).
        unchanged (synced Audio (sync_meta ctx) fs (dir_path (locations ctx))) r = None \<and>
        truthy_ext (download_audio env r aopts) = None)
    \<longrightarrow> downloads Audio (events_of (maybe_download_audio env ctx fs))
          = take 10 (candidates (all_audio_resources ctx))) \<and>
   (video_options (options ctx) = Some vopts \<and> \<not> audio_only (meta_tags (song_txt ctx)) \<and>
    (\<forall>r\<in>set (candidates (all_video_resources ctx)).
        unchanged (synced Video (sync_meta ctx) fs (dir_path (locations ctx))) r = None \<and>
        truthy_ext (download_video env r vopts) = None)
    \<longrightarrow> downloads Video (events_of (maybe_download_video env ctx fs))
          = take 10 (candidates (all_video_resources ctx)))"
proof (intro conjI impI)
  show "length (downloads Audio (events_of (maybe_download_audio env ctx fs))) \<le> 10"
    using loop_bound[of Audio Audio _ _ ctx fs 0]
    by (auto simp: maybe_download_audio_def events_of_def split: option.splits)
  show "length (downloads Video (events_of (maybe_download_video env ctx fs))) \<le> 10"
    using loop_bound[of Video Video _ _ ctx fs 0]
    by (auto simp: maybe_download_video_def events_of_def split: option.splits)
next
  assume "audio_options (options ctx) = Some aopts \<and>
    (\<forall>r\<in>set (candidates (all_audio_resources ctx)).
        unchanged (synced Audio (sync_meta ctx) fs (dir_path (locations ctx))) r = None \<and>
        truthy_ext (download_audio env r aopts) = None)"
  then show "downloads Audio (events_of (maybe_download_audio env ctx fs))
          = take 10 (candidates (all_audio_resources ctx))"
    using loop_all_fail[of "all_audio_resources ctx" _ "\<lambda>r. download_audio env r aopts" Audio ctx fs 0]
    by (simp add: maybe_download_audio_def)
next
  assume "video_options (options ctx) = Some vopts \<and> \<not> audio_only (meta_tags (song_txt ctx)) \<and>
    (\<forall>r\<in>set (candidates (all_video_resources ctx)).
        unchanged (synced Video (sync_meta ctx) fs (dir_path (locations ctx))) r = None \<and>
        truthy_ext (download_video env r vopts) = None)"
  then show "downloads Video (events_of (maybe_download_video env ctx fs))
          = take 10 (candidates (all_video_resources ctx))"
    using loop_all_fail[of "all_video_resources ctx" _ "\<lambda>r. download_video env r vopts" Video ctx fs 0]
    by (simp add: maybe_download_video_def)
qed

theorem bounded_attempts_witness:
  "length (candidates (all_audio_resources (ex_ctx ex_tags ex_vids15 (SyncMeta_new 1 ex_tags)))) = 15 \<and>
   downloads Audio (events_of (maybe_download_audio (ex_env ex_tags ex_vids15 (\<lambda>r. None) (\<lambda>r. None))
      (ex_ctx ex_tags ex_vids15 (SyncMeta_new 1 ex_tags)) fmempty))
     = [''v01'', ''v02'', ''v03'', ''v04'', ''v05'', ''v06'', ''v07'', ''v08'', ''v09'', ''v10''] \<and>
   length (candidates (all_video_resources (ex_ctx ex_tags ex_vids15 (SyncMeta_new 1 ex_tags)))) = 15 \<and>
   downloads Video (events_of (maybe_download_video (ex_env ex_tags ex_vids15 (\<lambda>r. None) (\<lambda>r. None))
      (ex_ctx ex_tags ex_vids15 (SyncMeta_new 1 ex_tags)) fmempty))
     = [''v01'', ''v02'', ''v03'', ''v04'', ''v05'', ''v06'', ''v07'', ''v08'', ''v09'', ''v10'']"
  using bounded_attempts[of "ex_env ex_tags ex_vids15 (\<lambda>r. None) (\<lambda>r. None)"
      "ex_ctx ex_tags ex_vids15 (SyncMeta_new 1 ex_tags)" fmempty
      "\<lparr>embed_artwork = True\<rparr>" VideoOptions]
  by (simp add: ex_ctx_def ex_env_def ex_options_def ex_txt_def ex_tags_def ex_details_def
      ex_vids15_def all_audio_resources_def all_video_resources_def synced_def slot_meta_def
      SyncMeta_new_def unchanged_def truthy_ext_def)

text \<open>
  C5. In an audio or video slot whose first three candidates are \<open>c1\<close>, \<open>c2\<close>,
  \<open>c3\<close>, none of them the recorded resource, with the downloads of \<open>c1\<close> and
  \<open>c2\<close> failing and that of \<open>c3\<close> succeeding, the descriptor put into the sync
  meta has the resource \<open>c3\<close>, the primitive is called on \<open>c1\<close>, \<open>c2\<close>,
  \<open>c3\<close> and on nothing after (whatever candidates follow), and the file is where the
  descriptor says.
\<close>

theorem fallback_order:
  "(audio_options (options ctx) = Some aopts \<and>
    candidates (all_audio_resources ctx) = c1 # c2 # c3 # post \<and>
    unchanged (synced Audio (sync_meta ctx) fs (dir_path (locations ctx))) c1 = None \<and>
    unchanged (synced Audio (sync_meta ctx) fs (dir_path (locations ctx))) c2 = None \<and>
    unchanged (synced Audio (sync_meta ctx) fs (dir_path (locations ctx))) c3 = None \<and>
    truthy_ext (download_audio env c1 aopts) = None \<and>
    truthy_ext (download_audio env c2 aopts) = None \<and>
    truthy_ext (download_audio env c3 aopts) = Some (ext, data)
    \<longrightarrow> (let r = maybe_download_audio env ctx fs;
             file = filename_stem (locations ctx) @ ''.'' @ ext
         in sm_audio (sync_meta (ctx_of r)) = Some \<lparr>fname = file, resource = c3\<rparr> \<and>
            h_mp3 (headers (song_txt (ctx_of r))) = Some file \<and>
            read_file (fs_of r) (FilePath (dir_path (locations ctx)) file) = Some data \<and>
            downloads Audio (events_of r) = [c1, c2, c3])) \<and>
   (video_options (options ctx) = Some vopts \<and> \<not> audio_only (meta_tags (song_txt ctx)) \<and>
    candidates (all_video_resources ctx) = c1 # c2 # c3 # post \<and>
    unchanged (synced Video (sync_meta ctx) fs (dir_path (locations ctx))) c1 = None \<and>
    unchanged (synced Video (sync_meta ctx) fs (dir_path (locations ctx))) c2 = None \<and>
    unchanged (synced Video (sync_meta ctx) fs (dir_path (locations ctx))) c3 = None \<and>
    truthy_ext (download_video env c1 vopts) = None \<and>
    truthy_ext (download_video env c2 vopts) = None \<and>
    truthy_ext (download_video env c3 vopts) = Some (ext, data)
    \<longrightarrow> (let r = maybe_download_video env ctx fs;
             file = filename_stem (locations ctx) @ ''.'' @ ext
         in sm_video (sync_meta (ctx_of r)) = Some \<lparr>fname = file, resource = c3\<rparr> \<and>
            h_video (headers (song_txt (ctx_of r))) = Some file \<and>
            read_file (fs_of r) (FilePath (dir_path (locations ctx)) file) = Some data \<and>
            downloads Video (events_of r) = [c1, c2, c3]))"
proof (intro conjI impI)
  assume a: "audio_options (options ctx) = Some aopts \<and>
    candidates (all_audio_resources ctx) = c1 # c2 # c3 # post \<and>
    unchanged (synced Audio (sync_meta ctx) fs (dir_path (locations ctx))) c1 = None \<and>
    unchanged (synced Audio (sync_meta ctx) fs (dir_path (locations ctx))) c2 = None \<and>
    unchanged (synced Audio (sync_meta ctx) fs (dir_path (locations ctx))) c3 = None \<and>
    truthy_ext (download_audio env c1 aopts) = None \<and>
    truthy_ext (download_audio env c2 aopts) = None \<and>
    truthy_ext (download_audio env c3 aopts) = Some (ext, data)"
  then have e: "ext \<noteq> []" using truthy_ext_Some by blast
  from a have c: "candidates (all_audio_resources ctx) = [c1, c2] @ c3 # post" by simp
  have r: "maybe_download_audio env ctx fs =
      download_loop Audio (\<lambda>res. download_audio env res aopts)
        (synced Audio (sync_meta ctx) fs (dir_path (locations ctx))) ctx fs 0
        (all_audio_resources ctx)"
    using a by (simp add: maybe_download_audio_def)
  show "let r = maybe_download_audio env ctx fs;
            file = filename_stem (locations ctx) @ ''.'' @ ext
        in sm_audio (sync_meta (ctx_of r)) = Some \<lparr>fname = file, resource = c3\<rparr> \<and>
           h_mp3 (headers (song_txt (ctx_of r))) = Some file \<and>
           read_file (fs_of r) (FilePath (dir_path (locations ctx)) file) = Some data \<and>
           downloads Audio (events_of r) = [c1, c2, c3]"
    unfolding r Let_def
    using loop_success[OF c, of "synced Audio (sync_meta ctx) fs (dir_path (locations ctx))"
        "\<lambda>res. download_audio env res aopts" ext data 0 Audio ctx fs] a e
    by (simp add: set_header_def set_slot_meta_def file_path_def read_write_file dir_path_def)
next
  assume a: "video_options (options ctx) = Some vopts \<and> \<not> audio_only (meta_tags (song_txt ctx)) \<and>
    candidates (all_video_resources ctx) = c1 # c2 # c3 # post \<and>
    unchanged (synced Video (sync_meta ctx) fs (dir_path (locations ctx))) c1 = None \<and>
    unchanged (synced Video (sync_meta ctx) fs (dir_path (locations ctx))) c2 = None \<and>
    unchanged (synced Video (sync_meta ctx) fs (dir_path (locations ctx))) c3 = None \<and>
    truthy_ext (download_video env c1 vopts) = None \<and>
    truthy_ext (download_video env c2 vopts) = None \<and>
    truthy_ext (download_video env c3 vopts) = Some (ext, data)"
  then have e: "ext \<noteq> []" using truthy_ext_Some by blast
  from a have c: "candidates (all_video_resources ctx) = [c1, c2] @ c3 # post" by simp
  have r: "maybe_download_video env ctx fs =
      download_loop Video (\<lambda>res. download_video env res vopts)
        (synced Video (sync_meta ctx) fs (dir_path (locations ctx))) ctx fs 0
        (all_video_resources ctx)"
    using a by (simp add: maybe_download_video_def)
  show "let r = maybe_download_video env ctx fs;
            file = filename_stem (locations ctx) @ ''.'' @ ext
        in sm_video (sync_meta (ctx_of r)) = Some \<lparr>fname = file, resource = c3\<rparr> \<and>
           h_video (headers (song_txt (ctx_of r))) = Some file \<and>
           read_file (fs_of r) (FilePath (dir_path (locations ctx)) file) = Some data \<and>
           downloads Video (events_of r) = [c1, c2, c3]"
    unfolding r Let_def
    using loop_success[OF c, of "synced Video (sync_meta ctx) fs (dir_path (locations ctx))"
        "\<lambda>res. download_video env res vopts" ext data 0 Video ctx fs] a e
    by (simp add: set_header_def set_slot_meta_def file_path_def read_write_file dir_path_def)
qed

theorem fallback_order_witness:
  "(let r = maybe_download_audio (ex_env ex_tags [''c1'', ''c2'', ''c3''] ex_dl3 (\<lambda>r. None))
             (ex_ctx ex_tags [''c1'', ''c2'', ''c3''] (SyncMeta_new 1 ex_tags)) fmempty
    in sm_audio (sync_meta (ctx_of r)) = Some \<lparr>fname = ''A - B.mp4'', resource = ''c3''\<rparr> \<and>
       downloads Audio (events_of r) = [''c1'', ''c2'', ''c3'']) \<and>
   (let r = maybe_download_video (ex_env ex_tags [''c1'', ''c2'', ''c3''] ex_dl3 (\<lambda>r. None))
             (ex_ctx ex_tags [''c1'', ''c2'', ''c3''] (SyncMeta_new 1 ex_tags)) fmempty
    in sm_video (sync_meta (ctx_of r)) = Some \<lparr>fname = ''A - B.mp4'', resource = ''c3''\<rparr> \<and>
       downloads Video (events_of r) = [''c1'', ''c2'', ''c3''])"
  using fallback_order[of "ex_ctx ex_tags [''c1'', ''c2'', ''c3''] (SyncMeta_new 1 ex_tags)"
      "\<lparr>embed_artwork = True\<rparr>" "''c1''" "''c2''" "''c3''" "[]" fmempty
      "ex_env ex_tags [''c1'', ''c2'', ''c3''] ex_dl3 (\<lambda>r. None)" "''mp4''"
      "File (Bytes ''c3 bytes'') []" VideoOptions]
  by (simp add: ex_ctx_def ex_env_def ex_options_def ex_txt_def ex_tags_def ex_details_def
      ex_dl3_def ex_loc_def all_audio_resources_def all_video_resources_def synced_def
      slot_meta_def SyncMeta_new_def unchanged_def truthy_ext_def Let_def)

section \<open>Reuse of a recorded resource\<close>

lemma audio_unchanged_position:
  assumes "audio_options (options ctx) = Some aopts"
  shows "((candidates (all_audio_resources ctx) = pre @ c # post \<and> length pre \<le> 10 \<and>
     synced Audio (sync_meta ctx) fs (dir_path (locations ctx)) = Some m \<and> resource m = c \<and>
     (\<forall>r\<in>set pre. r \<noteq> c \<and> truthy_ext (download_audio env r aopts) = None)
     \<longrightarrow> Log (Unchanged Audio) \<in> set (events_of (maybe_download_audio env ctx fs)) \<and>
         downloads Audio (events_of (maybe_download_audio env ctx fs)) = pre \<and>
         fs_of (maybe_download_audio env ctx fs) = fs \<and>
         ctx_of (maybe_download_audio env ctx fs) = set_header Audio (fname m) ctx)) \<and>
    ((Log (Unchanged Audio) \<in> set (events_of (maybe_download_audio env ctx fs))
     \<longrightarrow> (\<exists>pre c post m. candidates (all_audio_resources ctx) = pre @ c # post \<and> length pre \<le> 10 \<and>
           synced Audio (sync_meta ctx) fs (dir_path (locations ctx)) = Some m \<and> resource m = c \<and>
           (\<forall>r\<in>set pre. r \<noteq> c \<and> truthy_ext (download_audio env r aopts) = None)))) \<and>
    ((candidates (all_audio_resources ctx) = pre @ c # post \<and> length pre \<le> 9 \<and>
     (\<forall>r\<in>set (pre @ [c]).
        unchanged (synced Audio (sync_meta ctx) fs (dir_path (locations ctx))) r = None) \<and>
     (\<forall>r\<in>set pre. truthy_ext (download_audio env r aopts) = None) \<and>
     truthy_ext (download_audio env c aopts) = Some (ext, data)
     \<longrightarrow> Log (Unchanged Audio) \<notin> set (events_of (maybe_download_audio env ctx fs)) \<and>
         downloads Audio (events_of (maybe_download_audio env ctx fs)) = pre @ [c]))"
proof -
  let ?meta = "synced Audio (sync_meta ctx) fs (dir_path (locations ctx))"
  let ?dl = "\<lambda>r. download_audio env r aopts"
  have r: "maybe_download_audio env ctx fs = download_loop Audio ?dl ?meta ctx fs 0 (all_audio_resources ctx)"
    using assms by (simp add: maybe_download_audio_def)
  have p1: "(candidates (all_audio_resources ctx) = pre @ c # post \<and> length pre \<le> 10 \<and>
     synced Audio (sync_meta ctx) fs (dir_path (locations ctx)) = Some m \<and> resource m = c \<and>
     (\<forall>r\<in>set pre. r \<noteq> c \<and> truthy_ext (download_audio env r aopts) = None)
     \<longrightarrow> Log (Unchanged Audio) \<in> set (events_of (maybe_download_audio env ctx fs)) \<and>
         downloads Audio (events_of (maybe_download_audio env ctx fs)) = pre \<and>
         fs_of (maybe_download_audio env ctx fs) = fs \<and>
         ctx_of (maybe_download_audio env ctx fs) = set_header Audio (fname m) ctx)"
  proof
    assume a: "candidates (all_audio_resources ctx) = pre @ c # post \<and> length pre \<le> 10 \<and>
     synced Audio (sync_meta ctx) fs (dir_path (locations ctx)) = Some m \<and> resource m = c \<and>
     (\<forall>r\<in>set pre. r \<noteq> c \<and> truthy_ext (download_audio env r aopts) = None)"
    then have 1: "candidates (all_audio_resources ctx) = pre @ c # post"
      and 2: "\<forall>r\<in>set pre. unchanged ?meta r = None \<and> truthy_ext (?dl r) = None"
      and 3: "unchanged ?meta c = Some m" and 4: "0 + length pre \<le> 10"
      by (auto simp: unchanged_def)
    from loop_reuse[OF 1 2 3 4, of Audio ctx fs]
    show "Log (Unchanged Audio) \<in> set (events_of (maybe_download_audio env ctx fs)) \<and>
         downloads Audio (events_of (maybe_download_audio env ctx fs)) = pre \<and>
         fs_of (maybe_download_audio env ctx fs) = fs \<and>
         ctx_of (maybe_download_audio env ctx fs) = set_header Audio (fname m) ctx"
      unfolding r by simp
  qed
  have p2: "(Log (Unchanged Audio) \<in> set (events_of (maybe_download_audio env ctx fs))
     \<longrightarrow> (\<exists>pre c post m. candidates (all_audio_resources ctx) = pre @ c # post \<and> length pre \<le> 10 \<and>
           synced Audio (sync_meta ctx) fs (dir_path (locations ctx)) = Some m \<and> resource m = c \<and>
           (\<forall>r\<in>set pre. r \<noteq> c \<and> truthy_ext (download_audio env r aopts) = None)))"
  proof
    assume "Log (Unchanged Audio) \<in> set (events_of (maybe_download_audio env ctx fs))"
    from loop_unchanged_only_if[OF this[unfolded r]] obtain pre c post m where
      p: "candidates (all_audio_resources ctx) = pre @ c # post"
         "\<forall>r\<in>set pre. unchanged ?meta r = None \<and> truthy_ext (?dl r) = None"
         "unchanged ?meta c = Some m" "pre = [] \<or> 0 + length pre \<le> 10"
      by blast
    from p(3) have m: "?meta = Some m" "resource m = c" by (simp_all add: unchanged_Some_iff)
    have "candidates (all_audio_resources ctx) = pre @ c # post \<and> length pre \<le> 10 \<and>
           ?meta = Some m \<and> resource m = c \<and>
           (\<forall>r\<in>set pre. r \<noteq> c \<and> truthy_ext (download_audio env r aopts) = None)"
      using p m by (auto simp: unchanged_None_iff)
    then show "\<exists>pre c post m. candidates (all_audio_resources ctx) = pre @ c # post \<and> length pre \<le> 10 \<and>
           synced Audio (sync_meta ctx) fs (dir_path (locations ctx)) = Some m \<and> resource m = c \<and>
           (\<forall>r\<in>set pre. r \<noteq> c \<and> truthy_ext (download_audio env r aopts) = None)"
      by blast
  qed
  have p3: "(candidates (all_audio_resources ctx) = pre @ c # post \<and> length pre \<le> 9 \<and>
     (\<forall>r\<in>set (pre @ [c]).
        unchanged (synced Audio (sync_meta ctx) fs (dir_path (locations ctx))) r = None) \<and>
     (\<forall>r\<in>set pre. truthy_ext (download_audio env r aopts) = None) \<and>
     truthy_ext (download_audio env c aopts) = Some (ext, data)
     \<longrightarrow> Log (Unchanged Audio) \<notin> set (events_of (maybe_download_audio env ctx fs)) \<and>
         downloads Audio (events_of (maybe_download_audio env ctx fs)) = pre @ [c])"
  proof
    assume a: "candidates (all_audio_resources ctx) = pre @ c # post \<and> length pre \<le> 9 \<and>
     (\<forall>r\<in>set (pre @ [c]).
        unchanged (synced Audio (sync_meta ctx) fs (dir_path (locations ctx))) r = None) \<and>
     (\<forall>r\<in>set pre. truthy_ext (download_audio env r aopts) = None) \<and>
     truthy_ext (download_audio env c aopts) = Some (ext, data)"
    then have 1: "candidates (all_audio_resources ctx) = pre @ c # post"
      and 2: "\<forall>r\<in>set pre. unchanged ?meta r = None \<and> truthy_ext (?dl r) = None"
      and 3: "unchanged ?meta c = None" and 4: "truthy_ext (?dl c) = Some (ext, data)"
      and 5: "0 + length pre \<le> 9"
      by auto
    from loop_success[OF 1 2 3 4 5, of Audio ctx fs]
    show "Log (Unchanged Audio) \<notin> set (events_of (maybe_download_audio env ctx fs)) \<and>
         downloads Audio (events_of (maybe_download_audio env ctx fs)) = pre @ [c]"
      unfolding r by simp
  qed
  from p1 p2 p3 show ?thesis by blast
qed

lemma video_unchanged_position:
  assumes "video_options (options ctx) = Some vopts \<and> \<not> audio_only (meta_tags (song_txt ctx))"
  shows "((candidates (all_video_resources ctx) = pre @ c # post \<and> length pre \<le> 10 \<and>
     synced Video (sync_meta ctx) fs (dir_path (locations ctx)) = Some m \<and> resource m = c \<and>
     (\<forall>r\<in>set pre. r \<noteq> c \<and> truthy_ext (download_video env r vopts) = None)
     \<longrightarrow> Log (Unchanged Video) \<in> set (events_of (maybe_download_video env ctx fs)) \<and>
         downloads Video (events_of (maybe_download_video env ctx fs)) = pre \<and>
         fs_of (maybe_download_video env ctx fs) = fs \<and>
         ctx_of (maybe_download_video env ctx fs) = set_header Video (fname m) ctx)) \<and>
    ((Log (Unchanged Video) \<in> set (events_of (maybe_download_video env ctx fs))
     \<longrightarrow> (\<exists>pre c post m. candidates (all_video_resources ctx) = pre @ c # post \<and> length pre \<le> 10 \<and>
           synced Video (sync_meta ctx) fs (dir_path (locations ctx)) = Some m \<and> resource m = c \<and>
           (\<forall>r\<in>set pre. r \<noteq> c \<and> truthy_ext (download_video env r vopts) = None)))) \<and>
    ((candidates (all_video_resources ctx) = pre @ c # post \<and> length pre \<le> 9 \<and>
     (\<forall>r\<in>set (pre @ [c]).
        unchanged (synced Video (sync_meta ctx) fs (dir_path (locations ctx))) r = None) \<and>
     (\<forall>r\<in>set pre. truthy_ext (download_video env r vopts) = None) \<and>
     truthy_ext (download_video env c vopts) = Some (ext, data)
     \<longrightarrow> Log (Unchanged Video) \<notin> set (events_of (maybe_download_video env ctx fs)) \<and>
         downloads Video (events_of (maybe_download_video env ctx fs)) = pre @ [c]))"
proof -
  let ?meta = "synced Video (sync_meta ctx) fs (dir_path (locations ctx))"
  let ?dl = "\<lambda>r. download_video env r vopts"
  have r: "maybe_download_video env ctx fs = download_loop Video ?dl ?meta ctx fs 0 (all_video_resources ctx)"
    using assms by (simp add: maybe_download_video_def)
  have p1: "(candidates (all_video_resources ctx) = pre @ c # post \<and> length pre \<le> 10 \<and>
     synced Video (sync_meta ctx) fs (dir_path (locations ctx)) = Some m \<and> resource m = c \<and>
     (\<forall>r\<in>set pre. r \<noteq> c \<and> truthy_ext (download_video env r vopts) = None)
     \<longrightarrow> Log (Unchanged Video) \<in> set (events_of (maybe_download_video env ctx fs)) \<and>
         downloads Video (events_of (maybe_download_video env ctx fs)) = pre \<and>
         fs_of (maybe_download_video env ctx fs) = fs \<and>
         ctx_of (maybe_download_video env ctx fs) = set_header Video (fname m) ctx)"
  proof
    assume a: "candidates (all_video_resources ctx) = pre @ c # post \<and> length pre \<le> 10 \<and>
     synced Video (sync_meta ctx) fs (dir_path (locations ctx)) = Some m \<and> resource m = c \<and>
     (\<forall>r\<in>set pre. r \<noteq> c \<and> truthy_ext (download_video env r vopts) = None)"
    then have 1: "candidates (all_video_resources ctx) = pre @ c # post"
      and 2: "\<forall>r\<in>set pre. unchanged ?meta r = None \<and> truthy_ext (?dl r) = None"
      and 3: "unchanged ?meta c = Some m" and 4: "0 + length pre \<le> 10"
      by (auto simp: unchanged_def)
    from loop_reuse[OF 1 2 3 4, of Video ctx fs]
    show "Log (Unchanged Video) \<in> set (events_of (maybe_download_video env ctx fs)) \<and>
         downloads Video (events_of (maybe_download_video env ctx fs)) = pre \<and>
         fs_of (maybe_download_video env ctx fs) = fs \<and>
         ctx_of (maybe_download_video env ctx fs) = set_header Video (fname m) ctx"
      unfolding r by simp
  qed
  have p2: "(Log (Unchanged Video) \<in> set (events_of (maybe_download_video env ctx fs))
     \<longrightarrow> (\<exists>pre c post m. candidates (all_video_resources ctx) = pre @ c # post \<and> length pre \<le> 10 \<and>
           synced Video (sync_meta ctx) fs (dir_path (locations ctx)) = Some m \<and> resource m = c \<and>
           (\<forall>r\<in>set pre. r \<noteq> c \<and> truthy_ext (download_video env r vopts) = None)))"
  proof
    assume "Log (Unchanged Video) \<in> set (events_of (maybe_download_video env ctx fs))"
    from loop_unchanged_only_if[OF this[unfolded r]] obtain pre c post m where
      p: "candidates (all_video_resources ctx) = pre @ c # post"
         "\<forall>r\<in>set pre. unchanged ?meta r = None \<and> truthy_ext (?dl r) = None"
         "unchanged ?meta c = Some m" "pre = [] \<or> 0 + length pre \<le> 10"
      by blast
    from p(3) have m: "?meta = Some m" "resource m = c" by (simp_all add: unchanged_Some_iff)
    have "candidates (all_video_resources ctx) = pre @ c # post \<and> length pre \<le> 10 \<and>
           ?meta = Some m \<and> resource m = c \<and>
           (\<forall>r\<in>set pre. r \<noteq> c \<and> truthy_ext (download_video env r vopts) = None)"
      using p m by (auto simp: unchanged_None_iff)
    then show "\<exists>pre c post m. candidates (all_video_resources ctx) = pre @ c # post \<and> length pre \<le> 10 \<and>
           synced Video (sync_meta ctx) fs (dir_path (locations ctx)) = Some m \<and> resource m = c \<and>
           (\<forall>r\<in>set pre. r \<noteq> c \<and> truthy_ext (download_video env r vopts) = None)"
      by blast
  qed
  have p3: "(candidates (all_video_resources ctx) = pre @ c # post \<and> length pre \<le> 9 \<and>
     (\<forall>r\<in>set (pre @ [c]).
        unchanged (synced Video (sync_meta ctx) fs (dir_path (locations ctx))) r = None) \<and>
     (\<forall>r\<in>set pre. truthy_ext (download_video env r vopts) = None) \<and>
     truthy_ext (download_video env c vopts) = Some (ext, data)
     \<longrightarrow> Log (Unchanged Video) \<notin> set (events_of (maybe_download_video env ctx fs)) \<and>
         downloads Video (events_of (maybe_download_video env ctx fs)) = pre @ [c])"
  proof
    assume a: "candidates (all_video_resources ctx) = pre @ c # post \<and> length pre \<le> 9 \<and>
     (\<forall>r\<in>set (pre @ [c]).
        unchanged (synced Video (sync_meta ctx) fs (dir_path (locations ctx))) r = None) \<and>
     (\<forall>r\<in>set pre. truthy_ext (download_video env r vopts) = None) \<and>
     truthy_ext (download_video env c vopts) = Some (ext, data)"
    then have 1: "candidates (all_video_resources ctx) = pre @ c # post"
      and 2: "\<forall>r\<in>set pre. unchanged ?meta r = None \<and> truthy_ext (?dl r) = None"
      and 3: "unchanged ?meta c = None" and 4: "truthy_ext (?dl c) = Some (ext, data)"
      and 5: "0 + length pre \<le> 9"
      by auto
    from loop_success[OF 1 2 3 4 5, of Video ctx fs]
    show "Log (Unchanged Video) \<notin> set (events_of (maybe_download_video env ctx fs)) \<and>
         downloads Video (events_of (maybe_download_video env ctx fs)) = pre @ [c]"
      unfolding r by simp
  qed
  from p1 p2 p3 show ?thesis by blast
qed


text \<open>
  C3, as stated, fails. The candidates are \<open>c1\<close>, \<open>c2\<close>; the recorded audio resource
  is \<open>c2\<close>, at position 1 only, and its file is there; the download of \<open>c1\<close> fails.
  The loop then compares \<open>c2\<close> with the recorded resource as it does at every
  position: the descriptor is reused, nothing is downloaded again.
\<close>

theorem reuse_only_at_position_0_counterexample:
  "candidates (all_audio_resources ex_ctx_c2) = [''c1'', ''c2''] \<and>
   synced Audio (sync_meta ex_ctx_c2) ex_fs_c2 (dir_path (locations ex_ctx_c2))
     = Some \<lparr>fname = ''A - B.mp3'', resource = ''c2''\<rparr> \<and>
   events_of (maybe_download_audio ex_env_fail ex_ctx_c2 ex_fs_c2)
     = [Download Audio ''c1'', Log (Unchanged Audio)] \<and>
   h_mp3 (headers (song_txt (ctx_of (maybe_download_audio ex_env_fail ex_ctx_c2 ex_fs_c2))))
     = Some ''A - B.mp3'' \<and>
   fs_of (maybe_download_audio ex_env_fail ex_ctx_c2 ex_fs_c2) = ex_fs_c2"
  by (simp add: ex_simps slot_simps ex_ctx_c2_def ex_env_fail_def ex_tags_v1_def ex_sm_c2_def
      ex_fs_c2_def maybe_download_audio_def events_of_def ctx_of_def fs_of_def set_header_def)

text \<open>
  C3, amended. In an audio or video slot the recorded descriptor is treated as unchanged
  (recorded file name reused, nothing written) exactly when its resource is the candidate
  that the scan has reached: position 0, or a later position up to index 10 when every
  earlier candidate differs from it and failed to download; the primitive has then been
  called on those earlier candidates only. When an earlier candidate downloads, the
  recorded resource at a later position is not reused.
\<close>

theorem unchanged_at_reached_position:
  "(audio_options (options ctx) = Some aopts \<longrightarrow>
     (candidates (all_audio_resources ctx) = pre @ c # post \<and> length pre \<le> 10 \<and>
      synced Audio (sync_meta ctx) fs (dir_path (locations ctx)) = Some m \<and> resource m = c \<and>
      (\<forall>r\<in>set pre. r \<noteq> c \<and> truthy_ext (download_audio env r aopts) = None)
      \<longrightarrow> Log (Unchanged Audio) \<in> set (events_of (maybe_download_audio env ctx fs)) \<and>
          downloads Audio (events_of (maybe_download_audio env ctx fs)) = pre \<and>
          fs_of (maybe_download_audio env ctx fs) = fs \<and>
          ctx_of (maybe_download_audio env ctx fs) = set_header Audio (fname m) ctx) \<and>
     (Log (Unchanged Audio) \<in> set (events_of (maybe_download_audio env ctx fs))
      \<longrightarrow> (\<exists>pre c post m. candidates (all_audio_resources ctx) = pre @ c # post \<and>
            length pre \<le> 10 \<and>
            synced Audio (sync_meta ctx) fs (dir_path (locations ctx)) = Some m \<and>
            resource m = c \<and>
            (\<forall>r\<in>set pre. r \<noteq> c \<and> truthy_ext (download_audio env r aopts) = None))) \<and>
     (candidates (all_audio_resources ctx) = pre @ c # post \<and> length pre \<le> 9 \<and>
      (\<forall>r\<in>set (pre @ [c]).
         unchanged (synced Audio (sync_meta ctx) fs (dir_path (locations ctx))) r = None) \<and>
      (\<forall>r\<in>set pre. truthy_ext (download_audio env r aopts) = None) \<and>
      truthy_ext (download_audio env c aopts) = Some (ext, data)
      \<longrightarrow> Log (Unchanged Audio) \<notin> set (events_of (maybe_download_audio env ctx fs)) \<and>
          downloads Audio (events_of (maybe_download_audio env ctx fs)) = pre @ [c])) \<and>
   (video_options (options ctx) = Some vopts \<and> \<not> audio_only (meta_tags (song_txt ctx)) \<longrightarrow>
     (candidates (all_video_resources ctx) = pre @ c # post \<and> length pre \<le> 10 \<and>
      synced Video (sync_meta ctx) fs (dir_path (locations ctx)) = Some m \<and> resource m = c \<and>
      (\<forall>r\<in>set pre. r \<noteq> c \<and> truthy_ext (download_video env r vopts) = None)
      \<longrightarrow> Log (Unchanged Video) \<in> set (events_of (maybe_download_video env ctx fs)) \<and>
          downloads Video (events_of (maybe_download_video env ctx fs)) = pre \<and>
          fs_of (maybe_download_video env ctx fs) = fs \<and>
          ctx_of (maybe_download_video env ctx fs) = set_header Video (fname m) ctx) \<and>
     (Log (Unchanged Video) \<in> set (events_of (maybe_download_video env ctx fs))
      \<longrightarrow> (\<exists>pre c post m. candidates (all_video_resources ctx) = pre @ c # post \<and>
            length pre \<le> 10 \<and>
            synced Video (sync_meta ctx) fs (dir_path (locations ctx)) = Some m \<and>
            resource m = c \<and>
            (\<forall>r\<in>set pre. r \<noteq> c \<and> truthy_ext (download_video env r vopts) = None))) \<and>
     (candidates (all_video_resources ctx) = pre @ c # post \<and> length pre \<le> 9 \<and>
      (\<forall>r\<in>set (pre @ [c]).
         unchanged (synced Video (sync_meta ctx) fs (dir_path (locations ctx))) r = None) \<and>
      (\<forall>r\<in>set pre. truthy_ext (download_video env r vopts) = None) \<and>
      truthy_ext (download_video env c vopts) = Some (ext, data)
      \<longrightarrow> Log (Unchanged Video) \<notin> set (events_of (maybe_download_video env ctx fs)) \<and>
          downloads Video (events_of (maybe_download_video env ctx fs)) = pre @ [c]))"
  using audio_unchanged_position[of ctx aopts pre c post fs m env ext data]
    video_unchanged_position[of ctx vopts pre c post fs m env ext data]
  by blast

theorem unchanged_at_reached_position_witness:
  "Log (Unchanged Audio) \<in> set (events_of (maybe_download_audio ex_env_fail ex_ctx_c2 ex_fs_c2)) \<and>
   downloads Audio (events_of (maybe_download_audio ex_env_fail ex_ctx_c2 ex_fs_c2)) = [''c1''] \<and>
   Log (Unchanged Video) \<in> set (events_of (maybe_download_video ex_env_fail ex_ctx_c2 ex_fs_c2)) \<and>
   downloads Video (events_of (maybe_download_video ex_env_fail ex_ctx_c2 ex_fs_c2)) = [''c1''] \<and>
   Log (Unchanged Audio) \<notin> set (events_of (maybe_download_audio ex_env_c1 ex_ctx_c2 ex_fs_c2)) \<and>
   downloads Audio (events_of (maybe_download_audio ex_env_c1 ex_ctx_c2 ex_fs_c2)) = [''c1''] \<and>
   Log (Unchanged Video) \<notin> set (events_of (maybe_download_video ex_env_c1 ex_ctx_c2 ex_fs_c2)) \<and>
   downloads Video (events_of (maybe_download_video ex_env_c1 ex_ctx_c2 ex_fs_c2)) = [''c1'']"
  using unchanged_at_reached_position[of ex_ctx_c2 "\<lparr>embed_artwork = True\<rparr>" "[''c1'']" "''c2''"
      "[]" ex_fs_c2 "\<lparr>fname = ''A - B.mp3'', resource = ''c2''\<rparr>" ex_env_fail
      "''webm''" "File (Bytes ''c1 bytes'') []" VideoOptions]
    unchanged_at_reached_position[of ex_ctx_c2 "\<lparr>embed_artwork = True\<rparr>" "[''c1'']" "''c2''"
      "[]" ex_fs_c2 "\<lparr>fname = ''A - B.mp4'', resource = ''c2''\<rparr>" ex_env_fail
      "''webm''" "File (Bytes ''c1 bytes'') []" VideoOptions]
    unchanged_at_reached_position[of ex_ctx_c2 "\<lparr>embed_artwork = True\<rparr>" "[]" "''c1''"
      "[''c2'']" ex_fs_c2 "\<lparr>fname = ''A - B.mp3'', resource = ''c2''\<rparr>" ex_env_c1
      "''webm''" "File (Bytes ''c1 bytes'') []" VideoOptions]
  by (simp add: ex_simps slot_simps ex_ctx_c2_def ex_env_fail_def ex_env_c1_def ex_tags_v1_def
      ex_sm_c2_def ex_fs_c2_def)

section \<open>When a slot downloads\<close>

lemma loop_fs_changed_any:
  "fs_of (download_loop slot dl meta ctx fs idx items) \<noteq> fs \<Longrightarrow>
   downloads slot (events_of (download_loop slot dl meta ctx fs idx items)) \<noteq> []"
  using loop_fs_changed by blast

lemma synced_None_iff:
  "synced slot sm fs folder = None \<longleftrightarrow>
   (\<forall>m. slot_meta slot sm = Some m \<longrightarrow> \<not> file_exists fs (FilePath folder (fname m)))"
  by (auto simp: synced_def split: option.splits)

lemma audio_download_only_if:
  "(fs_of (maybe_download_audio env ctx fs) \<noteq> fs
      \<longrightarrow> downloads Audio (events_of (maybe_download_audio env ctx fs)) \<noteq> []) \<and>
   (r \<in> set (downloads Audio (events_of (maybe_download_audio env ctx fs)))
      \<longrightarrow> (\<forall>m. sm_audio (sync_meta ctx) = Some m \<longrightarrow>
             resource m \<noteq> r \<or> \<not> file_exists fs (FilePath (dir_path (locations ctx)) (fname m))))"
proof (cases "audio_options (options ctx)")
  case None
  then show ?thesis by (simp add: maybe_download_audio_def fs_of_def events_of_def)
next
  case (Some opts)
  then have r: "maybe_download_audio env ctx fs =
      download_loop Audio (\<lambda>res. download_audio env res opts)
        (synced Audio (sync_meta ctx) fs (dir_path (locations ctx))) ctx fs 0
        (all_audio_resources ctx)"
    by (simp add: maybe_download_audio_def)
  show ?thesis unfolding r
    using loop_fs_changed[of Audio "\<lambda>res. download_audio env res opts"
        "synced Audio (sync_meta ctx) fs (dir_path (locations ctx))" ctx fs 0
        "all_audio_resources ctx"]
      loop_downloads_unmatched[of r Audio Audio "\<lambda>res. download_audio env res opts"
        "synced Audio (sync_meta ctx) fs (dir_path (locations ctx))" ctx fs 0
        "all_audio_resources ctx"]
    by (auto simp: unchanged_None_iff synced_def slot_meta_def split: if_splits)
qed

lemma video_download_only_if:
  "(fs_of (maybe_download_video env ctx fs) \<noteq> fs
      \<longrightarrow> downloads Video (events_of (maybe_download_video env ctx fs)) \<noteq> []) \<and>
   (r \<in> set (downloads Video (events_of (maybe_download_video env ctx fs)))
      \<longrightarrow> (\<forall>m. sm_video (sync_meta ctx) = Some m \<longrightarrow>
             resource m \<noteq> r \<or> \<not> file_exists fs (FilePath (dir_path (locations ctx)) (fname m))))"
proof (cases "video_options (options ctx) = None \<or> audio_only (meta_tags (song_txt ctx))")
  case True
  then show ?thesis
    by (auto simp: maybe_download_video_def fs_of_def events_of_def split: option.splits)
next
  case False
  then obtain opts where r: "maybe_download_video env ctx fs =
      download_loop Video (\<lambda>res. download_video env res opts)
        (synced Video (sync_meta ctx) fs (dir_path (locations ctx))) ctx fs 0
        (all_video_resources ctx)"
    by (auto simp: maybe_download_video_def)
  show ?thesis unfolding r
    using loop_fs_changed[of Video "\<lambda>res. download_video env res opts"
        "synced Video (sync_meta ctx) fs (dir_path (locations ctx))" ctx fs 0
        "all_video_resources ctx"]
      loop_downloads_unmatched[of r Video Video "\<lambda>res. download_video env res opts"
        "synced Video (sync_meta ctx) fs (dir_path (locations ctx))" ctx fs 0
        "all_video_resources ctx"]
    by (auto simp: unchanged_None_iff synced_def slot_meta_def split: if_splits)
qed

lemma download_image_only_if:
  "(fs_of (download_image env slot w url ctx fs) \<noteq> fs
      \<longrightarrow> downloads slot (events_of (download_image env slot w url ctx fs)) \<noteq> []) \<and>
   (downloads slot (events_of (download_image env slot w url ctx fs)) \<noteq> []
      \<longrightarrow> (\<forall>m. slot_meta slot (sync_meta ctx) = Some m \<longrightarrow>
             slot_tag slot (sm_meta_tags (sync_meta ctx)) \<noteq> slot_tag slot (meta_tags (song_txt ctx))
             \<or> \<not> file_exists fs (FilePath (dir_path (locations ctx)) (fname m))))"
  by (auto simp: download_image_def fs_of_def events_of_def synced_def Let_def
      split: option.splits if_splits)

lemma downloads_Log_append [simp]:
  "downloads slot (Log m # es) = downloads slot es"
  by simp

lemma downloads_append: "downloads slot (xs @ ys) = downloads slot xs @ downloads slot ys"
  by (induction slot xs rule: downloads.induct) auto

lemma cover_shape:
  "(fs_of (maybe_download_cover env ctx fs) = fs \<and>
    downloads Cover (events_of (maybe_download_cover env ctx fs)) = []) \<or>
   (\<exists>w url. fs_of (maybe_download_cover env ctx fs) = fs_of (download_image env Cover w url ctx fs) \<and>
      downloads Cover (events_of (maybe_download_cover env ctx fs))
        = downloads Cover (events_of (download_image env Cover w url ctx fs)))"
proof (cases "cover (options ctx)")
  case None
  then show ?thesis by (simp add: maybe_download_cover_def fs_of_def events_of_def)
next
  case (Some opts)
  obtain url es where u: "cover_url ctx = (url, es)" by (cases "cover_url ctx")
  then have es: "downloads Cover es = []"
    by (auto simp: cover_url_def split: option.splits if_splits)
  show ?thesis
  proof (cases "truthy url")
    case False
    with Some u es show ?thesis
      by (cases url) (auto simp: maybe_download_cover_def fs_of_def events_of_def downloads_append)
  next
    case True
    then obtain x where x: "url = Some x" "x \<noteq> []" by (cases url) auto
    have "fs_of (maybe_download_cover env ctx fs)
            = fs_of (download_image env Cover (Some (max_size opts)) x ctx fs) \<and>
          downloads Cover (events_of (maybe_download_cover env ctx fs))
            = downloads Cover (events_of (download_image env Cover (Some (max_size opts)) x ctx fs))"
      using Some u es x
      by (auto simp: maybe_download_cover_def fs_of_def events_of_def downloads_append
          split: prod.splits)
    then show ?thesis by blast
  qed
qed

lemma background_shape:
  "(fs_of (maybe_download_background env ctx fs) = fs \<and>
    downloads Background (events_of (maybe_download_background env ctx fs)) = []) \<or>
   (\<exists>w url. fs_of (maybe_download_background env ctx fs)
               = fs_of (download_image env Background w url ctx fs) \<and>
      downloads Background (events_of (maybe_download_background env ctx fs))
        = downloads Background (events_of (download_image env Background w url ctx fs)))"
proof (cases "background_options (options ctx)")
  case None
  then show ?thesis by (simp add: maybe_download_background_def fs_of_def events_of_def)
next
  case (Some opts)
  obtain url es where u: "background_url ctx = (url, es)" by (cases "background_url ctx")
  then have es: "downloads Background es = []"
    by (auto simp: background_url_def split: option.splits if_splits)
  show ?thesis
  proof (cases "truthy url \<and> download_background opts (truthy (h_video (headers (song_txt ctx))))")
    case False
    with Some u es show ?thesis
      by (cases url)
         (auto simp: maybe_download_background_def fs_of_def events_of_def downloads_append)
  next
    case True
    then obtain x where x: "url = Some x" "x \<noteq> []" by (cases url) auto
    have "fs_of (maybe_download_background env ctx fs)
            = fs_of (download_image env Background None x ctx fs) \<and>
          downloads Background (events_of (maybe_download_background env ctx fs))
            = downloads Background (events_of (download_image env Background None x ctx fs))"
      using Some u es x True
      by (auto simp: maybe_download_background_def fs_of_def events_of_def downloads_append
          split: prod.splits)
    then show ?thesis by blast
  qed
qed

lemma cover_download_only_if:
  "(fs_of (maybe_download_cover env ctx fs) \<noteq> fs
      \<longrightarrow> downloads Cover (events_of (maybe_download_cover env ctx fs)) \<noteq> []) \<and>
   (downloads Cover (events_of (maybe_download_cover env ctx fs)) \<noteq> []
      \<longrightarrow> (\<forall>m. sm_cover (sync_meta ctx) = Some m \<longrightarrow>
             tag_cover (sm_meta_tags (sync_meta ctx)) \<noteq> tag_cover (meta_tags (song_txt ctx))
             \<or> \<not> file_exists fs (FilePath (dir_path (locations ctx)) (fname m))))"
proof -
  from cover_shape[of env ctx fs] show ?thesis
  proof
    assume "fs_of (maybe_download_cover env ctx fs) = fs \<and>
      downloads Cover (events_of (maybe_download_cover env ctx fs)) = []"
    then show ?thesis by simp
  next
    assume "\<exists>w url. fs_of (maybe_download_cover env ctx fs)
        = fs_of (download_image env Cover w url ctx fs) \<and>
      downloads Cover (events_of (maybe_download_cover env ctx fs))
        = downloads Cover (events_of (download_image env Cover w url ctx fs))"
    then obtain w url where "fs_of (maybe_download_cover env ctx fs)
        = fs_of (download_image env Cover w url ctx fs)"
      "downloads Cover (events_of (maybe_download_cover env ctx fs))
        = downloads Cover (events_of (download_image env Cover w url ctx fs))"
      by blast
    then show ?thesis
      using download_image_only_if[of env Cover w url ctx fs]
      by (simp add: slot_meta_def slot_tag_def)
  qed
qed

lemma background_download_only_if:
  "(fs_of (maybe_download_background env ctx fs) \<noteq> fs
      \<longrightarrow> downloads Background (events_of (maybe_download_background env ctx fs)) \<noteq> []) \<and>
   (downloads Background (events_of (maybe_download_background env ctx fs)) \<noteq> []
      \<longrightarrow> (\<forall>m. sm_background (sync_meta ctx) = Some m \<longrightarrow>
             tag_background (sm_meta_tags (sync_meta ctx))
               \<noteq> tag_background (meta_tags (song_txt ctx))
             \<or> \<not> file_exists fs (FilePath (dir_path (locations ctx)) (fname m))))"
proof -
  from background_shape[of env ctx fs] show ?thesis
  proof
    assume "fs_of (maybe_download_background env ctx fs) = fs \<and>
      downloads Background (events_of (maybe_download_background env ctx fs)) = []"
    then show ?thesis by simp
  next
    assume "\<exists>w url. fs_of (maybe_download_background env ctx fs)
        = fs_of (download_image env Background w url ctx fs) \<and>
      downloads Background (events_of (maybe_download_background env ctx fs))
        = downloads Background (events_of (download_image env Background w url ctx fs))"
    then obtain w url where "fs_of (maybe_download_background env ctx fs)
        = fs_of (download_image env Background w url ctx fs)"
      "downloads Background (events_of (maybe_download_background env ctx fs))
        = downloads Background (events_of (download_image env Background w url ctx fs))"
      by blast
    then show ?thesis
      using download_image_only_if[of env Background w url ctx fs]
      by (simp add: slot_meta_def slot_tag_def)
  qed
qed


text \<open>
  C8, as stated, fails for the image slots. The recorded cover has the resource \<open>u\<close>
  and its file is there; the txt has no cover tag any more, so the URL is the one of the
  song details, \<open>u\<close> again. The recorded meta tag differs from the current one, so the
  cover is downloaded and the file overwritten, although the resource is the recorded one.
  (A cover tag whose URL stays and whose other parameters change behaves the same.)
\<close>

theorem overwrite_only_if_resource_differs_counterexample:
  "cover_url ex_ctx_cover = (Some ''u'', [Log FallbackToUsdbCover]) \<and>
   sm_cover (sync_meta ex_ctx_cover) = Some \<lparr>fname = ''A - B [CO].jpg'', resource = ''u''\<rparr> \<and>
   read_file ex_fs_cover (FilePath (dir_path (locations ex_ctx_cover)) ''A - B [CO].jpg'')
     = Some (File (Bytes ''old cover'') []) \<and>
   events_of (maybe_download_cover ex_env_cover ex_ctx_cover ex_fs_cover)
     = [Log FallbackToUsdbCover, Download Cover ''u'', Log (Success Cover)] \<and>
   read_file (fs_of (maybe_download_cover ex_env_cover ex_ctx_cover ex_fs_cover))
       (FilePath (dir_path (locations ex_ctx_cover)) ''A - B [CO].jpg'')
     = Some (File (Bytes ''new cover'') [])"
  by (simp add: ex_simps slot_simps ex_ctx_cover_def ex_env_cover_def ex_sm_cover_def
      ex_fs_cover_def maybe_download_cover_def cover_url_def download_image_def slot_tag_def
      events_of_def fs_of_def set_header_def set_slot_meta_def write_file_def Let_def)

text \<open>
  C8, amended. A slot changes the song directory only by a call of its download primitive.
  In the audio and video slots the primitive is called on a candidate only if it differs
  from the recorded resource or the recorded file is missing (or nothing is recorded); in
  the cover and background slots only if the meta tag recorded in the sync meta differs
  from the current one of the txt or the recorded file is missing (or nothing is
  recorded): the URL is not compared with the recorded resource.
\<close>

theorem download_only_if_changed:
  "(fs_of (maybe_download_audio env ctx fs) \<noteq> fs
      \<longrightarrow> downloads Audio (events_of (maybe_download_audio env ctx fs)) \<noteq> []) \<and>
   (r \<in> set (downloads Audio (events_of (maybe_download_audio env ctx fs)))
      \<longrightarrow> (\<forall>m. sm_audio (sync_meta ctx) = Some m \<longrightarrow>
             resource m \<noteq> r \<or> \<not> file_exists fs (FilePath (dir_path (locations ctx)) (fname m)))) \<and>
   (fs_of (maybe_download_video env ctx fs) \<noteq> fs
      \<longrightarrow> downloads Video (events_of (maybe_download_video env ctx fs)) \<noteq> []) \<and>
   (r \<in> set (downloads Video (events_of (maybe_download_video env ctx fs)))
      \<longrightarrow> (\<forall>m. sm_video (sync_meta ctx) = Some m \<longrightarrow>
             resource m \<noteq> r \<or> \<not> file_exists fs (FilePath (dir_path (locations ctx)) (fname m)))) \<and>
   (fs_of (maybe_download_cover env ctx fs) \<noteq> fs
      \<longrightarrow> downloads Cover (events_of (maybe_download_cover env ctx fs)) \<noteq> []) \<and>
   (downloads Cover (events_of (maybe_download_cover env ctx fs)) \<noteq> []
      \<longrightarrow> (\<forall>m. sm_cover (sync_meta ctx) = Some m \<longrightarrow>
             tag_cover (sm_meta_tags (sync_meta ctx)) \<noteq> tag_cover (meta_tags (song_txt ctx))
             \<or> \<not> file_exists fs (FilePath (dir_path (locations ctx)) (fname m)))) \<and>
   (fs_of (maybe_download_background env ctx fs) \<noteq> fs
      \<longrightarrow> downloads Background (events_of (maybe_download_background env ctx fs)) \<noteq> []) \<and>
   (downloads Background (events_of (maybe_download_background env ctx fs)) \<noteq> []
      \<longrightarrow> (\<forall>m. sm_background (sync_meta ctx) = Some m \<longrightarrow>
             tag_background (sm_meta_tags (sync_meta ctx))
               \<noteq> tag_background (meta_tags (song_txt ctx))
             \<or> \<not> file_exists fs (FilePath (dir_path (locations ctx)) (fname m))))"
  using audio_download_only_if[of env ctx fs r] video_download_only_if[of env ctx fs r]
    cover_download_only_if[of env ctx fs] background_download_only_if[of env ctx fs]
  by blast

theorem download_only_if_changed_witness:
  "fs_of (maybe_download_audio ex_env_c1 ex_ctx_c2 ex_fs_c2) \<noteq> ex_fs_c2 \<and>
   ''c1'' \<in> set (downloads Audio (events_of (maybe_download_audio ex_env_c1 ex_ctx_c2 ex_fs_c2))) \<and>
   fs_of (maybe_download_video ex_env_c1 ex_ctx_c2 ex_fs_c2) \<noteq> ex_fs_c2 \<and>
   ''c1'' \<in> set (downloads Video (events_of (maybe_download_video ex_env_c1 ex_ctx_c2 ex_fs_c2))) \<and>
   sm_audio (sync_meta ex_ctx_c2) = Some \<lparr>fname = ''A - B.mp3'', resource = ''c2''\<rparr> \<and>
   sm_video (sync_meta ex_ctx_c2) = Some \<lparr>fname = ''A - B.mp4'', resource = ''c2''\<rparr> \<and>
   fs_of (maybe_download_cover ex_env_cover ex_ctx_cover ex_fs_cover) \<noteq> ex_fs_cover \<and>
   downloads Cover (events_of (maybe_download_cover ex_env_cover ex_ctx_cover ex_fs_cover)) = [''u''] \<and>
   tag_cover (sm_meta_tags (sync_meta ex_ctx_cover)) \<noteq> tag_cover (meta_tags (song_txt ex_ctx_cover))"
proof -
  have a: "read_file (fs_of (maybe_download_audio ex_env_c1 ex_ctx_c2 ex_fs_c2))
             (FilePath ex_dir ''A - B.webm'') \<noteq> read_file ex_fs_c2 (FilePath ex_dir ''A - B.webm'')"
    by (simp add: ex_simps slot_simps ex_ctx_c2_def ex_env_c1_def ex_tags_v1_def ex_sm_c2_def
        ex_fs_c2_def maybe_download_audio_def fs_of_def write_file_def file_path_def Let_def)
  have v: "read_file (fs_of (maybe_download_video ex_env_c1 ex_ctx_c2 ex_fs_c2))
             (FilePath ex_dir ''A - B.webm'') \<noteq> read_file ex_fs_c2 (FilePath ex_dir ''A - B.webm'')"
    by (simp add: ex_simps slot_simps ex_ctx_c2_def ex_env_c1_def ex_tags_v1_def ex_sm_c2_def
        ex_fs_c2_def maybe_download_video_def fs_of_def write_file_def file_path_def Let_def)
  have c: "read_file (fs_of (maybe_download_cover ex_env_cover ex_ctx_cover ex_fs_cover))
             (FilePath ex_dir ''A - B [CO].jpg'')
           \<noteq> read_file ex_fs_cover (FilePath ex_dir ''A - B [CO].jpg'')"
    by (simp add: ex_simps slot_simps ex_ctx_cover_def ex_env_cover_def ex_sm_cover_def
        ex_fs_cover_def maybe_download_cover_def cover_url_def download_image_def slot_tag_def
        fs_of_def write_file_def Let_def)
  have t: "sm_audio (sync_meta ex_ctx_c2) = Some \<lparr>fname = ''A - B.mp3'', resource = ''c2''\<rparr>"
    "sm_video (sync_meta ex_ctx_c2) = Some \<lparr>fname = ''A - B.mp4'', resource = ''c2''\<rparr>"
    "tag_cover (sm_meta_tags (sync_meta ex_ctx_cover)) \<noteq> tag_cover (meta_tags (song_txt ex_ctx_cover))"
    by (simp_all add: ex_simps ex_ctx_c2_def ex_sm_c2_def ex_ctx_cover_def ex_sm_cover_def
        SyncMeta_new_def)
  have d: "downloads Audio (events_of (maybe_download_audio ex_env_c1 ex_ctx_c2 ex_fs_c2)) = [''c1'']"
    "downloads Video (events_of (maybe_download_video ex_env_c1 ex_ctx_c2 ex_fs_c2)) = [''c1'']"
    "downloads Cover (events_of (maybe_download_cover ex_env_cover ex_ctx_cover ex_fs_cover)) = [''u'']"
    by (simp_all add: ex_simps slot_simps ex_ctx_c2_def ex_env_c1_def ex_tags_v1_def ex_sm_c2_def
        ex_fs_c2_def ex_ctx_cover_def ex_env_cover_def ex_sm_cover_def ex_fs_cover_def
        maybe_download_audio_def maybe_download_video_def maybe_download_cover_def cover_url_def
        download_image_def slot_tag_def events_of_def Let_def)
  have f: "fs_of (maybe_download_audio ex_env_c1 ex_ctx_c2 ex_fs_c2) \<noteq> ex_fs_c2"
    "fs_of (maybe_download_video ex_env_c1 ex_ctx_c2 ex_fs_c2) \<noteq> ex_fs_c2"
    "fs_of (maybe_download_cover ex_env_cover ex_ctx_cover ex_fs_cover) \<noteq> ex_fs_cover"
    using a v c by auto
  from f t d show ?thesis
    using download_only_if_changed[of ex_env_c1 ex_ctx_c2 ex_fs_c2 "''c1''"]
      download_only_if_changed[of ex_env_cover ex_ctx_cover ex_fs_cover "''u''"]
    by simp
qed

section \<open>The table actions\<close>

lemma is_pinned_status [simp]: "is_pinned (s\<lparr>status := st\<rparr>) = is_pinned s"
  by (simp add: is_pinned_def)

lemma collect_step:
  "get i = Some song \<Longrightarrow>
   fst (snd (collect cbd get (i # ids)))
     = (if \<not> is_pinned song \<and> cbd (status song) then [song\<lparr>status := PENDING\<rparr>] else [])
       @ fst (snd (collect cbd get ids))"
  by (simp add: is_pinned_def split: prod.splits)

lemma collect_batch:
  "fst (collect cbd get ids) = None \<Longrightarrow>
   fst (snd (collect cbd get ids))
     = map (\<lambda>s. s\<lparr>status := PENDING\<rparr>)
         (filter (\<lambda>s. \<not> is_pinned s \<and> cbd (status s)) (selected_songs get ids))"
proof (induction ids)
  case Nil
  then show ?case by (simp add: selected_songs_def map_filter_simps)
next
  case (Cons i ids)
  show ?case
  proof (cases "get i")
    case None
    with Cons.prems show ?thesis by simp
  next
    case (Some song)
    have "fst (collect cbd get ids) = None"
      using Cons.prems Some by (simp split: prod.splits if_splits)
    from Cons.IH[OF this] show ?thesis
      unfolding collect_step[of get i song cbd ids, OF Some]
      by (simp add: selected_songs_def map_filter_simps Some)
  qed
qed

lemma collect_unpinned:
  "s \<in> set (fst (snd (collect cbd get ids))) \<Longrightarrow> \<not> is_pinned s"
proof (induction ids)
  case Nil
  then show ?case by simp
next
  case (Cons i ids)
  show ?case
  proof (cases "get i")
    case None
    with Cons.prems show ?thesis by simp
  next
    case (Some song)
    from Cons.prems[unfolded collect_step[of get i song cbd ids, OF Some]] Cons.IH show ?thesis
      by (auto split: if_splits)
  qed
qed

lemma delete_songs_trashed:
  "trashed (delete_songs songs)
     = map sm_path (filter (\<lambda>m. \<not> sm_pinned m) (List.map_filter us_sync_meta songs))"
  by (induction songs) (auto simp: is_pinned_def map_filter_simps split: option.splits)

lemma download_raises:
  "fst (collect cbd get ids) = None \<Longrightarrow> fst (snd (collect cbd get ids)) \<noteq> [] \<Longrightarrow>
   download opts cbd get ids
     = (Some TypeError,
        snd (snd (collect cbd get ids)) @ [DownloadsRequested (length (fst (snd (collect cbd get ids))))],
        [])"
  by (cases "collect cbd get ids")
     (auto simp: download_def call_download_songs_def split: list.splits)

lemma selected_songs_Cons:
  "selected_songs get (i # ids)
     = (case get i of None \<Rightarrow> selected_songs get ids | Some s \<Rightarrow> s # selected_songs get ids)"
  by (simp add: selected_songs_def map_filter_simps split: option.splits)

lemma collect_reached:
  "collect cbd get ids =
     (if \<exists>i\<in>set ids. get i = None then Some AssertionError else None,
      map (\<lambda>s. s\<lparr>status := PENDING\<rparr>)
        (filter (\<lambda>s. \<not> is_pinned s \<and> cbd (status s))
           (selected_songs get (takeWhile (\<lambda>i. get i \<noteq> None) ids))),
      concat (map (\<lambda>s. if is_pinned s then [TableLog (us_song_id s) NotDownloadingPinned]
                         else if cbd (status s) then [SongChanged (us_song_id s)] else [])
           (selected_songs get (takeWhile (\<lambda>i. get i \<noteq> None) ids))))"
proof (induction ids)
  case Nil
  show ?case by (simp add: selected_songs_def map_filter_simps)
next
  case (Cons i ids)
  show ?case
  proof (cases "get i")
    case None
    then show ?thesis by (simp add: selected_songs_def map_filter_simps)
  next
    case (Some song)
    then show ?thesis
      unfolding collect.simps Cons.IH
      by (simp add: selected_songs_Cons is_pinned_def)
  qed
qed

text \<open>
  C9 holds for the pinned songs and for deleting, and fails on the code for the download of
  the others. No pinned song is on the batch that \<^verbatim>\<open>_download\<close> builds: the batch
  is the songs that the loop reaches (the selected ones, up to the first id without a
  song, where the assertion fails) that are not pinned and can be downloaded, in order,
  each set to \<^verbatim>\<open>PENDING\<close>; a pinned song only gets its log line. What
  \<^verbatim>\<open>_download\<close> then does is determined: with an empty batch it returns and hands
  nothing over, and with any other batch it posts \<^verbatim>\<open>DownloadsRequested\<close> and the
  call \<^verbatim>\<open>download_songs(to_download)\<close> raises \<^verbatim>\<open>TypeError\<close>, so the songs
  that are not pinned never reach the scheduler either. Deleting the selection sends to
  the trash the folders of the selected songs that have sync metadata and are not pinned,
  and no other.
\<close>

theorem pinned_excluded_unpinned_handoff:
  "(\<forall>s\<in>set (fst (snd (collect cbd get ids))). \<not> is_pinned s) \<and>
   (let reached = selected_songs get (takeWhile (\<lambda>i. get i \<noteq> None) ids);
        batch = map (\<lambda>s. s\<lparr>status := PENDING\<rparr>)
                  (filter (\<lambda>s. \<not> is_pinned s \<and> cbd (status s)) reached);
        posted = concat (map (\<lambda>s. if is_pinned s
                                     then [TableLog (us_song_id s) NotDownloadingPinned]
                                     else if cbd (status s) then [SongChanged (us_song_id s)]
                                     else []) reached)
    in fst (snd (collect cbd get ids)) = batch \<and>
       download opts cbd get ids
         = (if \<exists>i\<in>set ids. get i = None then (Some AssertionError, posted, [])
            else if batch = [] then (None, posted, [])
            else (Some TypeError, posted @ [DownloadsRequested (length batch)], []))) \<and>
   trashed (delete_selected_songs get ids)
     = map sm_path (filter (\<lambda>m. \<not> sm_pinned m)
         (List.map_filter us_sync_meta (selected_songs get ids)))"
proof (intro conjI ballI)
  fix s assume "s \<in> set (fst (snd (collect cbd get ids)))"
  then show "\<not> is_pinned s" by (rule collect_unpinned)
next
  show "let reached = selected_songs get (takeWhile (\<lambda>i. get i \<noteq> None) ids);
        batch = map (\<lambda>s. s\<lparr>status := PENDING\<rparr>)
                  (filter (\<lambda>s. \<not> is_pinned s \<and> cbd (status s)) reached);
        posted = concat (map (\<lambda>s. if is_pinned s
                                     then [TableLog (us_song_id s) NotDownloadingPinned]
                                     else if cbd (status s) then [SongChanged (us_song_id s)]
                                     else []) reached)
    in fst (snd (collect cbd get ids)) = batch \<and>
       download opts cbd get ids
         = (if \<exists>i\<in>set ids. get i = None then (Some AssertionError, posted, [])
            else if batch = [] then (None, posted, [])
            else (Some TypeError, posted @ [DownloadsRequested (length batch)], []))"
    unfolding download_def collect_reached[of cbd get ids] Let_def
    by (simp add: call_download_songs_def)
next
  show "trashed (delete_selected_songs get ids)
     = map sm_path (filter (\<lambda>m. \<not> sm_pinned m)
         (List.map_filter us_sync_meta (selected_songs get ids)))"
    by (simp add: delete_selected_songs_def delete_songs_trashed)
qed

theorem pinned_excluded_unpinned_handoff_witness:
  "is_pinned (ex_song 1 (Some True)) \<and>
   fst (snd (collect ex_can_be_downloaded ex_get [1, 2]))
     = [(ex_song 2 (Some False))\<lparr>status := PENDING\<rparr>] \<and>
   download ex_options ex_can_be_downloaded ex_get [1, 2]
     = (Some TypeError, [TableLog 1 NotDownloadingPinned, SongChanged 2, DownloadsRequested 1], []) \<and>
   trashed (delete_selected_songs ex_get [1, 2]) = [''songs/2''] \<and>
   download ex_options ex_can_be_downloaded ex_get [1] = (None, [TableLog 1 NotDownloadingPinned], []) \<and>
   trashed (delete_selected_songs ex_get [1]) = []"
  using pinned_excluded_unpinned_handoff[of ex_can_be_downloaded ex_get "[1, 2]" ex_options]
    pinned_excluded_unpinned_handoff[of ex_can_be_downloaded ex_get "[1]" ex_options]
  by (simp add: ex_get_def ex_song_def ex_can_be_downloaded_def is_pinned_def selected_songs_def
      map_filter_simps show_nat.simps digit_char_def Let_def)

text \<open>
  C10 fails on the code. \<^verbatim>\<open>_download\<close> calls \<^verbatim>\<open>download_songs(to_download)\<close>
  with the list of songs alone, while \<^verbatim>\<open>download_songs\<close> requires \<open>infos\<close>,
  \<open>on_start\<close> and \<open>on_finish\<close>: whenever the batch is not empty the call raises
  \<^verbatim>\<open>TypeError\<close> and no worker is started. Here the selection is a pinned song and
  two songs that can be downloaded.
\<close>

theorem download_handoff_raises:
  "download ex_options ex_can_be_downloaded ex_get [1, 2, 3]
     = (Some TypeError,
        [TableLog 1 NotDownloadingPinned, SongChanged 2, SongChanged 3, DownloadsRequested 2],
        [])"
  by (simp add: download_def call_download_songs_def ex_get_def ex_song_def
      ex_can_be_downloaded_def)

section \<open>Runs of the song loader\<close>

lemma finishes_append: "finishes (xs @ ys) = finishes xs @ finishes ys"
  by (induction xs rule: finishes.induct) auto

lemma finishes_loop: "finishes (events_of (download_loop slot dl meta ctx fs idx items)) = []"
  by (induction slot dl meta ctx fs idx items rule: download_loop.induct)
     (auto simp: events_of_def Let_def split: prod.splits option.splits)

lemma finishes_audio: "finishes (events_of (maybe_download_audio env ctx fs)) = []"
  using finishes_loop[of Audio]
  by (auto simp: maybe_download_audio_def events_of_def split: option.splits)

lemma finishes_video: "finishes (events_of (maybe_download_video env ctx fs)) = []"
  using finishes_loop[of Video]
  by (auto simp: maybe_download_video_def events_of_def split: option.splits)

lemma finishes_image: "finishes (events_of (download_image env slot w url ctx fs)) = []"
  by (auto simp: download_image_def events_of_def Let_def split: option.splits)

lemma finishes_cover: "finishes (events_of (maybe_download_cover env ctx fs)) = []"
proof (cases "cover (options ctx)")
  case None
  then show ?thesis by (simp add: maybe_download_cover_def events_of_def)
next
  case (Some opts)
  obtain url es where u: "cover_url ctx = (url, es)" by (cases "cover_url ctx")
  then have es: "finishes es = []"
    by (auto simp: cover_url_def split: option.splits if_splits)
  show ?thesis
  proof (cases url)
    case None
    with Some u es show ?thesis
      by (simp add: maybe_download_cover_def events_of_def finishes_append)
  next
    case (Some x)
    with \<open>cover (options ctx) = Some opts\<close> u es
      finishes_image[of env Cover "Some (max_size opts)" x ctx fs]
    show ?thesis
      by (auto simp: maybe_download_cover_def events_of_def finishes_append split: prod.splits)
  qed
qed

lemma finishes_background: "finishes (events_of (maybe_download_background env ctx fs)) = []"
proof (cases "background_options (options ctx)")
  case None
  then show ?thesis by (simp add: maybe_download_background_def events_of_def)
next
  case (Some opts)
  obtain url es where u: "background_url ctx = (url, es)" by (cases "background_url ctx")
  then have es: "finishes es = []"
    by (auto simp: background_url_def split: option.splits if_splits)
  show ?thesis
  proof (cases url)
    case None
    with Some u es show ?thesis
      by (simp add: maybe_download_background_def events_of_def finishes_append)
  next
    case (Some x)
    with \<open>background_options (options ctx) = Some opts\<close> u es
      finishes_image[of env Background None x ctx fs]
    show ?thesis
      by (auto simp: maybe_download_background_def events_of_def finishes_append
          split: prod.splits)
  qed
qed

lemma finishes_txt: "finishes (events_of (maybe_write_txt ctx fs)) = []"
  by (auto simp: maybe_write_txt_def events_of_def Let_def split: option.splits)

lemmas finishes_steps = finishes_append finishes_audio finishes_video finishes_cover
  finishes_background finishes_txt

lemma run_finishes:
  "finishes (trace (run env opts info fs))
     = (case raised (run env opts info fs) of
          None \<Rightarrow> finishes (trace (run env opts info fs))
        | Some e \<Rightarrow> [])"
  "raised (run env opts info fs) = None \<Longrightarrow>
     length (finishes (trace (run env opts info fs))) = 1 \<and>
     r_song_id (hd (finishes (trace (run env opts info fs)))) = song_id info"
  by (auto simp: run_def raised_def trace_def Let_def finishes_steps
      split: option.splits sum.splits prod.splits)

lemma ex_lang_details: "get_usdb_details (ex_env_lang l) (Suc 0) = Some (ex_details [''c1''])"
  by (simp add: ex_env_lang_def ex_env_def)

lemma ex_lang_context:
  "Context_new (ex_env_lang l) (ex_details [''c1'']) ex_options_audio ex_info fmempty
     = Some (ex_ctx_lang l)"
  by (simp add: Context_new_def Locations_new_def load_sync_meta_def next_unique_directory_def
      artist_title_str_def usdb_name_def show_nat.simps digit_char_def file_exists_def
      read_file_def files_of_def dir_exists_def Let_def ex_txt_lang_def
      ex_env_lang_def ex_env_def ex_info_def ex_ctx_lang_def ex_txt_def ex_headers_def
      ex_options_audio_def ex_options_def ex_loc_def ex_dir_def ex_details_def)

lemma ex_lang_mkdir:
  "mkdir fmempty (dir_path (locations (ex_ctx_lang l))) = fmupd ex_dir fmempty fmempty"
  by (simp add: mkdir_def dir_exists_def ex_ctx_lang_def ex_loc_def dir_path_def)

lemma ex_lang_paths:
  "ensure_correct_paths (locations (ex_ctx_lang l)) (sync_meta (ex_ctx_lang l))
     (fmupd ex_dir fmempty fmempty)
   = Inr (locations (ex_ctx_lang l), sync_meta (ex_ctx_lang l), fmupd ex_dir fmempty fmempty)"
  by (simp add: ensure_correct_paths_def is_name_maybe_with_suffix_def ex_ctx_lang_def ex_loc_def
      dir_path_def ex_dir_def)

lemma ex_lang_audio:
  "maybe_download_audio (ex_env_lang l) (ex_ctx_lang l) (fmupd ex_dir fmempty fmempty)
   = (ex_ctx_lang_a l, ex_fs_a,
      [Log NoAudioVideoMetaTag, Download Audio ''c1'', Log (Success Audio)])"
  by (simp add: maybe_download_audio_def ex_ctx_lang_def ex_ctx_lang_a_def ex_env_lang_def
      ex_env_def ex_options_audio_def ex_options_def ex_txt_lang_def ex_txt_def ex_tags_def
      ex_details_def ex_loc_def ex_dir_def slot_simps
      set_slot_meta_def file_path_def ex_fs_a_def Let_def)

lemma ex_lang_skipped:
  "maybe_download_video env (ex_ctx_lang_a l) fs = (ex_ctx_lang_a l, fs, [])"
  "maybe_download_cover env (ex_ctx_lang_a l) fs = (ex_ctx_lang_a l, fs, [])"
  "maybe_download_background env (ex_ctx_lang_a l) fs = (ex_ctx_lang_a l, fs, [])"
  "maybe_write_txt (ex_ctx_lang_a l) fs = (ex_ctx_lang_a l, fs, [])"
  by (simp_all add: maybe_download_video_def maybe_download_cover_def
      maybe_download_background_def maybe_write_txt_def ex_ctx_lang_a_def ex_ctx_lang_def
      ex_options_audio_def set_header_def)

lemma ex_lang_sync_meta: "write_sync_meta (ex_ctx_lang_a l) ex_fs_a = ex_fs_m"
  by (simp add: write_sync_meta_def to_file_def ex_ctx_lang_a_def ex_ctx_lang_def ex_fs_m_def
      set_header_def SyncMeta_new_def dir_path_def ex_loc_def usdb_name_def show_nat.simps
      digit_char_def)

lemma ex_lang_tags_raise:
  "maybe_write_audio_tags (ex_env_lang ''Simlish'') (ex_ctx_lang_a ''Simlish'') ex_fs_m
     = Inl InvalidLanguageValue"
  by (simp add: maybe_write_audio_tags_def write_mp3_tags_def path_suffix_def file_path_def
      ex_ctx_lang_a_def ex_ctx_lang_def ex_options_audio_def ex_options_def set_header_def
      ex_env_lang_def ex_env_def ex_txt_lang_def ex_txt_def ex_headers_def ex_loc_def Let_def)

lemma ex_lang_tags_ok:
  "\<exists>fs. maybe_write_audio_tags (ex_env_lang ''English'') (ex_ctx_lang_a ''English'') ex_fs_m
     = Inr fs"
  by (simp add: maybe_write_audio_tags_def write_mp3_tags_def path_suffix_def file_path_def
      ex_ctx_lang_a_def ex_ctx_lang_def ex_options_audio_def ex_options_def set_header_def
      ex_env_lang_def ex_env_def ex_txt_lang_def ex_txt_def ex_headers_def ex_loc_def Let_def
      bind_err_def SyncMeta_new_def)

lemma ex_info_id: "song_id ex_info = 1"
  by (simp add: ex_info_def)

lemmas ex_lang_steps = ex_info_id ex_lang_details ex_lang_context ex_lang_mkdir ex_lang_paths
  ex_lang_audio ex_lang_skipped ex_lang_sync_meta

lemma ex_lang_run_returns:
  "raised (run (ex_env_lang ''English'') ex_options_audio ex_info fmempty) = None"
proof -
  obtain fs where "maybe_write_audio_tags (ex_env_lang ''English'') (ex_ctx_lang_a ''English'')
      ex_fs_m = Inr fs"
    using ex_lang_tags_ok by blast
  then show ?thesis
    by (simp add: run_def ex_lang_steps raised_def ctx_of_def fs_of_def events_of_def Let_def)
qed

text \<open>
  C1, as stated, fails. \<^verbatim>\<open>run\<close> has no exception handler. Here the audio is
  downloaded as an mp3 and the txt names a language that the language lookup of
  \<^verbatim>\<open>_write_mp3_tags\<close> does not know: the lookup raises, the error leaves
  \<^verbatim>\<open>run\<close>, and \<^verbatim>\<open>on_finish\<close> is never called.
\<close>

theorem on_finish_exactly_once_counterexample:
  "raised (run (ex_env_lang ''Simlish'') ex_options_audio ex_info fmempty)
     = Some InvalidLanguageValue \<and>
   trace (run (ex_env_lang ''Simlish'') ex_options_audio ex_info fmempty)
     = [OnStart 1, Log FoundOnUsdb, Log NoAudioVideoMetaTag, Download Audio ''c1'',
        Log (Success Audio)] \<and>
   finishes (trace (run (ex_env_lang ''Simlish'') ex_options_audio ex_info fmempty)) = []"
  by (simp add: run_def ex_lang_steps ex_lang_tags_raise raised_def trace_def ctx_of_def
      fs_of_def events_of_def)

text \<open>
  C1, amended. \<^verbatim>\<open>download_songs\<close> makes one worker for each submitted info, in
  order. A worker whose \<^verbatim>\<open>run\<close> returns has called \<^verbatim>\<open>on_finish\<close> exactly once,
  with a result for its song, whichever exit it took (song not found, not logged in, all
  done); a worker whose \<^verbatim>\<open>run\<close> is left by an error has not called it at all.
\<close>

theorem on_finish_once_if_run_returns:
  "map sl_info (download_songs opts infos) = infos \<and>
   (\<forall>w\<in>set (download_songs opts infos).
      (raised (run_worker env w fs) = None \<longrightarrow>
         (\<exists>res. finishes (trace (run_worker env w fs)) = [res] \<and>
                r_song_id res = song_id (sl_info w))) \<and>
      (raised (run_worker env w fs) \<noteq> None \<longrightarrow> finishes (trace (run_worker env w fs)) = []))"
proof (intro conjI ballI impI)
  show "map sl_info (download_songs opts infos) = infos"
    by (simp add: download_songs_def comp_def)
next
  fix w assume "raised (run_worker env w fs) = None"
  then have "length (finishes (trace (run env (sl_options w) (sl_info w) fs))) = 1 \<and>
     r_song_id (hd (finishes (trace (run env (sl_options w) (sl_info w) fs)))) = song_id (sl_info w)"
    using run_finishes(2)[of env "sl_options w" "sl_info w" fs] by (simp add: run_worker_def)
  then show "\<exists>res. finishes (trace (run_worker env w fs)) = [res] \<and>
                r_song_id res = song_id (sl_info w)"
    by (cases "finishes (trace (run env (sl_options w) (sl_info w) fs))")
       (auto simp: run_worker_def)
next
  fix w assume "raised (run_worker env w fs) \<noteq> None"
  then show "finishes (trace (run_worker env w fs)) = []"
    using run_finishes(1)[of env "sl_options w" "sl_info w" fs]
    by (auto simp: run_worker_def)
qed

theorem on_finish_once_if_run_returns_witness:
  "download_songs ex_options_audio [ex_info] = [\<lparr>sl_info = ex_info, sl_options = ex_options_audio\<rparr>] \<and>
   raised (run_worker (ex_env_lang ''English'')
             \<lparr>sl_info = ex_info, sl_options = ex_options_audio\<rparr> fmempty) = None \<and>
   length (finishes (trace (run_worker (ex_env_lang ''English'')
             \<lparr>sl_info = ex_info, sl_options = ex_options_audio\<rparr> fmempty))) = 1 \<and>
   raised (run_worker (ex_env_lang ''Simlish'')
             \<lparr>sl_info = ex_info, sl_options = ex_options_audio\<rparr> fmempty)
     = Some InvalidLanguageValue \<and>
   finishes (trace (run_worker (ex_env_lang ''Simlish'')
             \<lparr>sl_info = ex_info, sl_options = ex_options_audio\<rparr> fmempty)) = []"
proof -
  have e: "raised (run_worker (ex_env_lang ''English'')
             \<lparr>sl_info = ex_info, sl_options = ex_options_audio\<rparr> fmempty) = None"
    using ex_lang_run_returns by (simp add: run_worker_def)
  have s: "raised (run_worker (ex_env_lang ''Simlish'')
             \<lparr>sl_info = ex_info, sl_options = ex_options_audio\<rparr> fmempty)
     = Some InvalidLanguageValue"
    by (simp add: run_worker_def run_def ex_lang_steps ex_lang_tags_raise raised_def ctx_of_def
        fs_of_def events_of_def)
  have d: "download_songs ex_options_audio [ex_info]
      = [\<lparr>sl_info = ex_info, sl_options = ex_options_audio\<rparr>]"
    by (simp add: download_songs_def)
  show ?thesis
    using on_finish_once_if_run_returns[of ex_options_audio "[ex_info]" "ex_env_lang ''English''"
        fmempty]
      on_finish_once_if_run_returns[of ex_options_audio "[ex_info]" "ex_env_lang ''Simlish''"
        fmempty] e s d
    by auto
qed

text \<open>
  C6. When the song details are absent, or the notes are (no text, or an empty one), the
  run returns without an error, has called \<^verbatim>\<open>on_start\<close> and then \<^verbatim>\<open>on_finish\<close>
  once with a result that has no files, has logged the failure and done nothing else, and
  the file system is as it was: no directory is made.
\<close>

theorem terminal_failures:
  "(get_usdb_details env (song_id info) = None \<longrightarrow>
      run env opts info fs
        = (None, fs, [OnStart (song_id info), Log CouldNotFindSong,
                      OnFinish \<lparr>r_song_id = song_id info, files = None\<rparr>])) \<and>
   (get_usdb_details env (song_id info) = Some dets \<and> \<not> truthy (get_notes env (d_song_id dets))
      \<longrightarrow> run env opts info fs
            = (None, fs, [OnStart (song_id info), Log FoundOnUsdb, Log AbortedNotLoggedIn,
                          OnFinish \<lparr>r_song_id = song_id info, files = None\<rparr>]))"
  by (cases "get_notes env (d_song_id dets)") (auto simp: run_def Context_new_def)

theorem terminal_failures_witness:
  "run (ex_env_lang ''English'') ex_options_audio \<lparr>song_id = 2, meta_path = None\<rparr> fmempty
     = (None, fmempty, [OnStart 2, Log CouldNotFindSong,
                        OnFinish \<lparr>r_song_id = 2, files = None\<rparr>]) \<and>
   run ((ex_env_lang ''English'')\<lparr>get_notes := (\<lambda>sid. None)\<rparr>) ex_options_audio ex_info fmempty
     = (None, fmempty, [OnStart 1, Log FoundOnUsdb, Log AbortedNotLoggedIn,
                        OnFinish \<lparr>r_song_id = 1, files = None\<rparr>])"
  using terminal_failures[of "ex_env_lang ''English''" "\<lparr>song_id = 2, meta_path = None\<rparr>"
      ex_options_audio fmempty "ex_details [''c1'']"]
    terminal_failures[of "(ex_env_lang ''English'')\<lparr>get_notes := (\<lambda>sid. None)\<rparr>" ex_info
      ex_options_audio fmempty "ex_details [''c1'']"]
  by (simp add: ex_env_lang_def ex_env_def ex_info_def ex_details_def)

section \<open>Directory and file names\<close>

lemma next_free_suffix_free: "\<not> dir_exists fs (next_free_suffix fs path k)"
  by (induction fs path k rule: next_free_suffix.induct) (simp add: next_free_suffix.simps)

lemma next_free_suffix_first:
  "\<exists>j\<ge>k. next_free_suffix fs path k = with_suffix path j \<and>
     (\<forall>i. k \<le> i \<and> i < j \<longrightarrow> dir_exists fs (with_suffix path i))"
proof (induction fs path k rule: next_free_suffix.induct)
  case (1 fs path k)
  show ?case
  proof (cases "dir_exists fs (with_suffix path k)")
    case False
    then have "next_free_suffix fs path k = with_suffix path k \<and>
       (\<forall>i. k \<le> i \<and> i < k \<longrightarrow> dir_exists fs (with_suffix path i))"
      by (auto simp: next_free_suffix.simps)
    then show ?thesis by blast
  next
    case True
    from 1[OF True] obtain j where j: "Suc k \<le> j"
      "next_free_suffix fs path (Suc k) = with_suffix path j"
      "\<forall>i. Suc k \<le> i \<and> i < j \<longrightarrow> dir_exists fs (with_suffix path i)"
      by blast
    have "\<forall>i. k \<le> i \<and> i < j \<longrightarrow> dir_exists fs (with_suffix path i)"
    proof (intro allI impI)
      fix i assume "k \<le> i \<and> i < j"
      then show "dir_exists fs (with_suffix path i)"
        using True j(3) by (cases "i = k") auto
    qed
    moreover have "next_free_suffix fs path k = with_suffix path j"
      using True j(2) by (simp add: next_free_suffix.simps)
    moreover have "k \<le> j" using j(1) by simp
    ultimately show ?thesis by blast
  qed
qed

lemma next_unique_directory_free: "\<not> dir_exists fs (next_unique_directory fs path)"
  by (simp add: next_unique_directory_def next_free_suffix_free)

lemma is_digit_digit_char: "d < 10 \<Longrightarrow> is_digit (digit_char d)"
proof -
  assume "d < 10"
  then have "d \<in> {0, 1, 2, 3, 4, 5, 6, 7, 8, 9}" by auto
  then show ?thesis by (auto simp: is_digit_def digit_char_def)
qed

lemma show_nat_digits: "list_all is_digit (show_nat k)"
  by (induction k rule: show_nat.induct)
     (subst show_nat.simps, simp add: is_digit_digit_char)

lemma with_suffix_matches:
  "is_name_maybe_with_suffix (dir_name (with_suffix (DirPath par stem) k)) stem"
  using show_nat_not_Nil[of k] show_nat_digits[of k]
  by (cases "show_nat k") (auto simp: is_name_maybe_with_suffix_def with_suffix_def Let_def)

lemma next_unique_directory_matches:
  "is_name_maybe_with_suffix (dir_name (next_unique_directory fs (DirPath par stem))) stem"
proof (cases "dir_exists fs (DirPath par stem)")
  case False
  then show ?thesis by (simp add: next_unique_directory_def is_name_maybe_with_suffix_def)
next
  case True
  obtain j where "next_free_suffix fs (DirPath par stem) 1 = with_suffix (DirPath par stem) j"
    using next_free_suffix_first[of 1 fs "DirPath par stem"] by blast
  with True show ?thesis by (simp add: next_unique_directory_def with_suffix_matches)
qed

lemma next_unique_directory_parent:
  "dir_parent (next_unique_directory fs path) = dir_parent path"
proof (cases "dir_exists fs path")
  case False
  then show ?thesis by (simp add: next_unique_directory_def)
next
  case True
  obtain j where "next_free_suffix fs path 1 = with_suffix path j"
    using next_free_suffix_first[of 1 fs path] by blast
  with True show ?thesis by (simp add: next_unique_directory_def with_suffix_def)
qed

lemma files_of_fmupd: "files_of (fmupd d fl fs) d' = (if d' = d then fl else files_of fs d')"
  by (simp add: files_of_def)

lemma rename_file_moves:
  assumes "read_file fs old = Some c" and "\<not> file_exists fs new" and "parent old = parent new"
  shows "\<exists>fs'. rename_file fs old new = Inr fs' \<and>
     read_file fs' new = Some c \<and> read_file fs' old = None \<and>
     (\<forall>p. p \<noteq> old \<and> p \<noteq> new \<longrightarrow> read_file fs' p = read_file fs p) \<and>
     (\<forall>d. d \<noteq> parent old \<longrightarrow> fmlookup fs' d = fmlookup fs d) \<and>
     dir_exists fs' (parent old) \<and>
     fmran' (files_of fs' (parent old)) = fmran' (files_of fs (parent old))"
proof -
  let ?d = "parent old"
  let ?fl = "files_of fs ?d"
  let ?fs' = "fmupd ?d (fmupd (name new) c (fmdrop (name old) ?fl)) fs"
  have ne: "name old \<noteq> name new"
    using assms by (cases old; cases new) (auto simp: file_exists_def read_file_def)
  have r: "rename_file fs old new = Inr ?fs'"
    using assms by (simp add: rename_file_def write_file_def files_of_fmupd)
  have o: "fmlookup ?fl (name old) = Some c" "fmlookup ?fl (name new) = None"
    using assms by (simp_all add: read_file_def file_exists_def)
  have ran: "fmran' (fmupd (name new) c (fmdrop (name old) ?fl)) = fmran' ?fl"
  proof (rule set_eqI)
    fix v
    show "v \<in> fmran' (fmupd (name new) c (fmdrop (name old) ?fl)) \<longleftrightarrow> v \<in> fmran' ?fl"
    proof
      assume "v \<in> fmran' (fmupd (name new) c (fmdrop (name old) ?fl))"
      then obtain k where "fmlookup (fmupd (name new) c (fmdrop (name old) ?fl)) k = Some v"
        by (auto simp: fmran'_alt_def)
      then have "fmlookup ?fl k = Some v \<or> v = c"
        by (auto split: if_splits)
      then show "v \<in> fmran' ?fl" using o(1) by (auto intro: fmran'I)
    next
      assume "v \<in> fmran' ?fl"
      then obtain k where k: "fmlookup ?fl k = Some v" by (auto simp: fmran'_alt_def)
      show "v \<in> fmran' (fmupd (name new) c (fmdrop (name old) ?fl))"
      proof (cases "k = name old")
        case True
        with k o(1) have "v = c" by simp
        then show ?thesis by (auto intro: fmran'I[of _ "name new"])
      next
        case False
        with k o(2) have "fmlookup (fmupd (name new) c (fmdrop (name old) ?fl)) k = Some v"
          by auto
        then show ?thesis by (rule fmran'I)
      qed
    qed
  qed
  have "read_file ?fs' new = Some c" using assms(3) by (simp add: read_file_def files_of_fmupd)
  moreover have "read_file ?fs' old = None" using ne by (simp add: read_file_def files_of_fmupd)
  moreover have "\<forall>p. p \<noteq> old \<and> p \<noteq> new \<longrightarrow> read_file ?fs' p = read_file fs p"
  proof (intro allI impI)
    fix p assume p: "p \<noteq> old \<and> p \<noteq> new"
    show "read_file ?fs' p = read_file fs p"
    proof (cases "parent p = ?d")
      case True
      with p assms(3) have "name p \<noteq> name old" "name p \<noteq> name new"
        by (cases p; cases old; cases new; auto)+
      with True show ?thesis by (simp add: read_file_def files_of_fmupd)
    next
      case False
      then show ?thesis by (simp add: read_file_def files_of_fmupd)
    qed
  qed
  moreover have "\<forall>d. d \<noteq> ?d \<longrightarrow> fmlookup ?fs' d = fmlookup fs d" by simp
  moreover have "dir_exists ?fs' ?d" by (simp add: dir_exists_def)
  moreover have "fmran' (files_of ?fs' ?d) = fmran' ?fl" using ran by (simp add: files_of_fmupd)
  ultimately show ?thesis using r by simp
qed

lemma keeps_contents_refl: "keeps_contents d fs fs"
  by (simp add: keeps_contents_def)

lemma keeps_contents_trans:
  "keeps_contents d fs fs' \<Longrightarrow> keeps_contents d fs' fs'' \<Longrightarrow> keeps_contents d fs fs''"
  by (simp add: keeps_contents_def)

lemma parent_file_path: "parent (file_path loc file ext) = dir_path loc"
  by (simp add: file_path_def dir_path_def Let_def)

lemma read_file_dir_exists: "read_file fs p = Some c \<Longrightarrow> dir_exists fs (parent p)"
  by (auto simp: read_file_def files_of_def dir_exists_def split: option.splits)

lemma fix_resource_path_cases:
  "(let old_path = file_path loc (fname meta) [];
        new_path = file_path loc (filename_stem loc @ resource_file_ending (fname meta)) []
    in (old_path = new_path \<or> file_exists fs new_path \<or> \<not> file_exists fs old_path
          \<longrightarrow> fix_resource_path loc fs meta = Inr (fs, meta)) \<and>
       (\<not> (old_path = new_path \<or> file_exists fs new_path \<or> \<not> file_exists fs old_path)
          \<longrightarrow> (\<exists>fs'. fix_resource_path loc fs meta = Inr (fs', meta\<lparr>fname := name new_path\<rparr>) \<and>
                 read_file fs' new_path = read_file fs old_path \<and>
                 read_file fs' old_path = None \<and>
                 (\<forall>p. p \<noteq> old_path \<and> p \<noteq> new_path \<longrightarrow> read_file fs' p = read_file fs p) \<and>
                 keeps_contents (dir_path loc) fs fs')))"
proof -
  let ?old = "file_path loc (fname meta) []"
  let ?new = "file_path loc (filename_stem loc @ resource_file_ending (fname meta)) []"
  have skip: "?old = ?new \<or> file_exists fs ?new \<or> \<not> file_exists fs ?old
      \<Longrightarrow> fix_resource_path loc fs meta = Inr (fs, meta)"
    by (auto simp: fix_resource_path_def Let_def)
  have move: "\<exists>fs'. fix_resource_path loc fs meta = Inr (fs', meta\<lparr>fname := name ?new\<rparr>) \<and>
                 read_file fs' ?new = read_file fs ?old \<and>
                 read_file fs' ?old = None \<and>
                 (\<forall>p. p \<noteq> ?old \<and> p \<noteq> ?new \<longrightarrow> read_file fs' p = read_file fs p) \<and>
                 keeps_contents (dir_path loc) fs fs'"
    if n: "\<not> (?old = ?new \<or> file_exists fs ?new \<or> \<not> file_exists fs ?old)"
  proof -
    from n obtain c where c: "read_file fs ?old = Some c" by (auto simp: file_exists_def)
    have p: "parent ?old = parent ?new" by (simp add: parent_file_path)
    from n have e: "\<not> file_exists fs ?new" by simp
    from rename_file_moves[OF c e p] obtain fs' where f:
      "rename_file fs ?old ?new = Inr fs'" "read_file fs' ?new = Some c"
      "read_file fs' ?old = None"
      "\<forall>p. p \<noteq> ?old \<and> p \<noteq> ?new \<longrightarrow> read_file fs' p = read_file fs p"
      "\<forall>d. d \<noteq> parent ?old \<longrightarrow> fmlookup fs' d = fmlookup fs d"
      "dir_exists fs' (parent ?old)"
      "fmran' (files_of fs' (parent ?old)) = fmran' (files_of fs (parent ?old))"
      by blast
    have "fix_resource_path loc fs meta = Inr (fs', meta\<lparr>fname := name ?new\<rparr>)"
      using n f(1) by (simp add: fix_resource_path_def Let_def bind_err_def)
    moreover have "keeps_contents (dir_path loc) fs fs'"
      using f(5,6,7) read_file_dir_exists[OF c]
      by (simp add: keeps_contents_def parent_file_path)
    ultimately show ?thesis using f(2,3,4) c by simp
  qed
  show ?thesis unfolding Let_def using skip move by blast
qed

lemma fix_file_meta_keeps:
  "\<exists>fs' m'. fix_file_meta loc fs m = Inr (fs', m') \<and> keeps_contents (dir_path loc) fs fs'"
proof (cases m)
  case None
  then show ?thesis by (simp add: keeps_contents_refl)
next
  case (Some meta)
  from fix_resource_path_cases[of loc meta fs]
  obtain fs' meta' where "fix_resource_path loc fs meta = Inr (fs', meta')"
    "keeps_contents (dir_path loc) fs fs'"
    unfolding Let_def using keeps_contents_refl by metis
  with Some show ?thesis by (simp add: bind_err_def)
qed

lemma fix_resource_paths_chain:
  "\<exists>sm' fs1 fs2 fs3 fs4 fs5.
     fix_resource_paths loc sm fs = Inr (sm', fs5) \<and>
     fix_file_meta loc fs (sm_txt sm) = Inr (fs1, sm_txt sm') \<and>
     fix_file_meta loc fs1 (sm_audio sm) = Inr (fs2, sm_audio sm') \<and>
     fix_file_meta loc fs2 (sm_video sm) = Inr (fs3, sm_video sm') \<and>
     fix_file_meta loc fs3 (sm_cover sm) = Inr (fs4, sm_cover sm') \<and>
     fix_file_meta loc fs4 (sm_background sm) = Inr (fs5, sm_background sm') \<and>
     sm_song_id sm' = sm_song_id sm \<and> sm_meta_tags sm' = sm_meta_tags sm \<and>
     pinned sm' = pinned sm \<and>
     keeps_contents (dir_path loc) fs fs5"
proof -
  obtain fs1 t where 1: "fix_file_meta loc fs (sm_txt sm) = Inr (fs1, t)"
    "keeps_contents (dir_path loc) fs fs1"
    using fix_file_meta_keeps by blast
  obtain fs2 a where 2: "fix_file_meta loc fs1 (sm_audio sm) = Inr (fs2, a)"
    "keeps_contents (dir_path loc) fs1 fs2"
    using fix_file_meta_keeps by blast
  obtain fs3 v where 3: "fix_file_meta loc fs2 (sm_video sm) = Inr (fs3, v)"
    "keeps_contents (dir_path loc) fs2 fs3"
    using fix_file_meta_keeps by blast
  obtain fs4 c where 4: "fix_file_meta loc fs3 (sm_cover sm) = Inr (fs4, c)"
    "keeps_contents (dir_path loc) fs3 fs4"
    using fix_file_meta_keeps by blast
  obtain fs5 b where 5: "fix_file_meta loc fs4 (sm_background sm) = Inr (fs5, b)"
    "keeps_contents (dir_path loc) fs4 fs5"
    using fix_file_meta_keeps by blast
  let ?sm = "sm\<lparr>sm_txt := t, sm_audio := a, sm_video := v, sm_cover := c, sm_background := b\<rparr>"
  have "fix_resource_paths loc sm fs = Inr (?sm, fs5)"
    using 1(1) 2(1) 3(1) 4(1) 5(1) by (simp add: fix_resource_paths_def bind_err_def)
  moreover have "keeps_contents (dir_path loc) fs fs5"
    using 1(2) 2(2) 3(2) 4(2) 5(2) keeps_contents_trans by blast
  ultimately have "fix_resource_paths loc sm fs = Inr (?sm, fs5) \<and>
     fix_file_meta loc fs (sm_txt sm) = Inr (fs1, sm_txt ?sm) \<and>
     fix_file_meta loc fs1 (sm_audio sm) = Inr (fs2, sm_audio ?sm) \<and>
     fix_file_meta loc fs2 (sm_video sm) = Inr (fs3, sm_video ?sm) \<and>
     fix_file_meta loc fs3 (sm_cover sm) = Inr (fs4, sm_cover ?sm) \<and>
     fix_file_meta loc fs4 (sm_background sm) = Inr (fs5, sm_background ?sm) \<and>
     sm_song_id ?sm = sm_song_id sm \<and> sm_meta_tags ?sm = sm_meta_tags sm \<and>
     pinned ?sm = pinned sm \<and>
     keeps_contents (dir_path loc) fs fs5"
    using 1(1) 2(1) 3(1) 4(1) 5(1) by simp
  then show ?thesis by blast
qed

lemma rename_dir_moves:
  assumes "dir_exists fs old" and "\<not> dir_exists fs new"
  shows "\<exists>fs0. rename_dir fs old new = Inr fs0 \<and>
     fmlookup fs0 new = fmlookup fs old \<and> \<not> dir_exists fs0 old \<and> dir_exists fs0 new \<and>
     files_of fs0 new = files_of fs old \<and>
     (\<forall>d. d \<noteq> new \<and> d \<noteq> old \<longrightarrow> fmlookup fs0 d = fmlookup fs d)"
proof -
  from assms obtain fl where fl: "fmlookup fs old = Some fl" by (auto simp: dir_exists_def)
  from assms have ne: "old \<noteq> new" by auto
  have "rename_dir fs old new = Inr (fmupd new fl (fmdrop old fs))"
    using fl assms(2) by (simp add: rename_dir_def)
  then show ?thesis using fl ne by (auto simp: dir_exists_def files_of_def)
qed

lemma ex_old_mismatch:
  "\<not> is_name_maybe_with_suffix (dir_name (dir_path ex_loc_old)) (filename_stem ex_loc_old)"
  by (simp add: is_name_maybe_with_suffix_def ex_loc_old_def ex_dir_old_def dir_path_def)

lemma ex_old_new_dir:
  "next_unique_directory ex_fs_old
     (DirPath (dir_parent (dir_path ex_loc_old)) (filename_stem ex_loc_old)) = ex_dir"
  "next_unique_directory ex_fs_old2
     (DirPath (dir_parent (dir_path ex_loc_old)) (filename_stem ex_loc_old)) = ex_dir"
  by (simp_all add: next_unique_directory_def dir_exists_def ex_fs_old_def ex_fs_old2_def
      ex_loc_old_def ex_dir_old_def ex_dir_def dir_path_def)

lemma ex_old_meta_path:
  "fix_meta_path ex_loc_old ex_fs_old
     = Inr (ex_loc_old\<lparr>loc_meta_path := FilePath ex_dir ''1.usdb''\<rparr>,
            fmupd ex_dir ex_files_old fmempty)"
  unfolding fix_meta_path_def ex_old_new_dir Let_def
  by (simp add: rename_dir_def dir_exists_def bind_err_def ex_fs_old_def ex_loc_old_def
      ex_dir_old_def ex_dir_def dir_path_def fmap_ext)

lemma ex_old_meta_path2:
  "fix_meta_path ex_loc_old ex_fs_old2
     = Inr (ex_loc_old\<lparr>loc_meta_path := FilePath ex_dir ''1.usdb''\<rparr>,
            fmupd ex_dir (fmupd ''A - B.mp3'' (File (Bytes ''other'') []) ex_files_old) fmempty)"
  unfolding fix_meta_path_def ex_old_new_dir Let_def
  by (simp add: rename_dir_def dir_exists_def bind_err_def ex_fs_old2_def ex_loc_old_def
      ex_dir_old_def ex_dir_def dir_path_def fmap_ext)

lemma ex_old_fix_skip:
  "fix_resource_paths (ex_loc_old\<lparr>loc_meta_path := FilePath ex_dir ''1.usdb''\<rparr>) ex_sm_old
     (fmupd ex_dir (fmupd ''A - B.mp3'' (File (Bytes ''other'') []) ex_files_old) fmempty)
   = Inr (ex_sm_old,
          fmupd ex_dir (fmupd ''A - B.mp3'' (File (Bytes ''other'') []) ex_files_old) fmempty)"
  by (simp add: bind_err_def fix_resource_paths_def
      fix_resource_path_def resource_file_ending_def path_suffix_def file_path_def
      file_exists_def read_file_def files_of_def ex_sm_old_def SyncMeta_new_def ex_loc_old_def
      ex_files_old_def Let_def)

lemma ex_old_paths_skip:
  "ensure_correct_paths ex_loc_old ex_sm_old ex_fs_old2
     = Inr (ex_loc_old\<lparr>loc_meta_path := FilePath ex_dir ''1.usdb''\<rparr>, ex_sm_old,
            fmupd ex_dir (fmupd ''A - B.mp3'' (File (Bytes ''other'') []) ex_files_old) fmempty)"
  by (simp add: ensure_correct_paths_def ex_old_mismatch ex_old_meta_path2 ex_old_fix_skip
      bind_err_def)

lemma ex_old_fix_move:
  "case fix_resource_paths (ex_loc_old\<lparr>loc_meta_path := FilePath ex_dir ''1.usdb''\<rparr>) ex_sm_old
     (fmupd ex_dir ex_files_old fmempty) of
     Inl e \<Rightarrow> False
   | Inr (sm', fs') \<Rightarrow>
        sm_audio sm' = Some \<lparr>fname = ''A - B.mp3'', resource = ''c1''\<rparr> \<and>
        read_file fs' (FilePath (DirPath ''songs'' ''A - B'') ''A - B.mp3'')
          = Some (File (Bytes ''audio'') []) \<and>
        read_file fs' (FilePath (DirPath ''songs'' ''A - B'') ''Old.mp3'') = None \<and>
        \<not> dir_exists fs' (DirPath ''songs'' ''Old'')"
  by (simp add: bind_err_def fix_resource_paths_def
      fix_resource_path_def resource_file_ending_def path_suffix_def file_path_def
      file_exists_def read_file_def files_of_def ex_sm_old_def SyncMeta_new_def ex_loc_old_def
      ex_files_old_def rename_file_def write_file_def dir_exists_def ex_dir_def Let_def)

lemma ex_old_context:
  "Context_new (ex_env_lang l) (ex_details [''c1'']) ex_options_audio ex_info_old ex_fs_old2
     = Some (ex_ctx_old l)"
  by (simp add: Context_new_def Locations_new_def load_sync_meta_def try_from_file_def
      artist_title_str_def file_exists_def read_file_def files_of_def Let_def ex_txt_lang_def
      ex_env_lang_def ex_env_def ex_info_old_def ex_ctx_old_def ex_txt_def ex_headers_def
      ex_options_audio_def ex_options_def ex_loc_old_def ex_details_def ex_fs_old2_def
      ex_files_old_def)

lemma ex_old_mkdir: "mkdir ex_fs_old2 (dir_path (locations (ex_ctx_old l))) = ex_fs_old2"
  by (simp add: mkdir_def dir_exists_def ex_ctx_old_def ex_loc_old_def dir_path_def
      ex_fs_old2_def)

lemma ex_old_paths:
  "ensure_correct_paths (locations (ex_ctx_old l)) (sync_meta (ex_ctx_old l)) ex_fs_old2
     = Inr (ex_loc_new, ex_sm_old, ex_fs_new2)"
  using ex_old_paths_skip by (simp add: ex_ctx_old_def ex_loc_new_def ex_fs_new2_def)

lemma ex_old_audio:
  "maybe_download_audio (ex_env_lang l)
     ((ex_ctx_old l)\<lparr>locations := ex_loc_new, sync_meta := ex_sm_old\<rparr>) ex_fs_new2
   = (ex_ctx_old_a l, ex_fs_new2, [Log NoAudioVideoMetaTag, Log (Unchanged Audio)])"
  by (simp add: maybe_download_audio_def ex_ctx_old_def ex_ctx_old_a_def ex_env_lang_def
      ex_env_def ex_options_audio_def ex_options_def ex_txt_lang_def ex_txt_def ex_tags_def
      ex_details_def ex_loc_new_def ex_loc_old_def ex_sm_old_def ex_fs_new2_def
      ex_files_old_def slot_simps Let_def)

lemma ex_old_skipped:
  "maybe_download_video env (ex_ctx_old_a l) fs = (ex_ctx_old_a l, fs, [])"
  "maybe_download_cover env (ex_ctx_old_a l) fs = (ex_ctx_old_a l, fs, [])"
  "maybe_download_background env (ex_ctx_old_a l) fs = (ex_ctx_old_a l, fs, [])"
  "maybe_write_txt (ex_ctx_old_a l) fs = (ex_ctx_old_a l, fs, [])"
  by (simp_all add: maybe_download_video_def maybe_download_cover_def
      maybe_download_background_def maybe_write_txt_def ex_ctx_old_a_def ex_ctx_old_def
      ex_options_audio_def set_header_def)

lemma ex_old_tags_ok:
  "\<exists>fs'. maybe_write_audio_tags (ex_env_lang ''English'') (ex_ctx_old_a ''English'') fs = Inr fs'"
  by (simp add: maybe_write_audio_tags_def write_mp3_tags_def path_suffix_def file_path_def
      ex_ctx_old_a_def ex_ctx_old_def ex_options_audio_def ex_options_def set_header_def
      ex_env_lang_def ex_env_def ex_txt_lang_def ex_txt_def ex_headers_def ex_loc_new_def
      ex_loc_old_def ex_sm_old_def SyncMeta_new_def Let_def bind_err_def)

lemma ex_old_result:
  "loc_meta_path (locations (ex_ctx_old_a l)) = FilePath ex_dir ''1.usdb''"
  "sync_meta (ex_ctx_old_a l) = ex_sm_old"
  by (simp_all add: ex_ctx_old_a_def ex_ctx_old_def set_header_def ex_loc_new_def)

text \<open>
  C7, as stated, fails in one point: a skipped rename is not logged. The song directory is
  \<open>Old\<close> and holds the recorded audio \<open>Old.mp3\<close> and a file \<open>A - B.mp3\<close>; the
  headers now give the stem \<open>A - B\<close>. The directory is renamed, the audio is not
  (its target is there) and keeps its recorded name, and the run logs what it logs without
  it: \<^verbatim>\<open>Locations\<close> has no logger.
\<close>

theorem skipped_rename_is_logged_counterexample:
  "file_exists ex_fs_old2 (FilePath ex_dir_old ''Old.mp3'') \<and>
   file_exists ex_fs_old2 (FilePath ex_dir_old ''A - B.mp3'') \<and>
   sm_audio ex_sm_old = Some \<lparr>fname = ''Old.mp3'', resource = ''c1''\<rparr> \<and>
   ensure_correct_paths ex_loc_old ex_sm_old ex_fs_old2 = Inr (ex_loc_new, ex_sm_old, ex_fs_new2) \<and>
   trace (run (ex_env_lang ''English'') ex_options_audio ex_info_old ex_fs_old2)
     = [OnStart 1, Log FoundOnUsdb, Log NoAudioVideoMetaTag, Log (Unchanged Audio), Log AllDone,
        OnFinish \<lparr>r_song_id = 1,
                  files = Some (LocalFiles (FilePath ex_dir ''1.usdb'') ex_sm_old)\<rparr>]"
proof -
  obtain fs where t: "maybe_write_audio_tags (ex_env_lang ''English'') (ex_ctx_old_a ''English'')
      (write_sync_meta (ex_ctx_old_a ''English'') ex_fs_new2) = Inr fs"
    using ex_old_tags_ok by blast
  have i: "song_id ex_info_old = 1" by (simp add: ex_info_old_def)
  have r: "trace (run (ex_env_lang ''English'') ex_options_audio ex_info_old ex_fs_old2)
     = [OnStart 1, Log FoundOnUsdb, Log NoAudioVideoMetaTag, Log (Unchanged Audio), Log AllDone,
        OnFinish \<lparr>r_song_id = 1,
                  files = Some (LocalFiles (FilePath ex_dir ''1.usdb'') ex_sm_old)\<rparr>]"
    by (simp add: run_def i ex_lang_details ex_old_context ex_old_mkdir ex_old_paths
        ex_old_audio ex_old_skipped t ex_old_result trace_def ctx_of_def fs_of_def events_of_def
        Let_def)
  have f: "file_exists ex_fs_old2 (FilePath ex_dir_old ''Old.mp3'')"
    "file_exists ex_fs_old2 (FilePath ex_dir_old ''A - B.mp3'')"
    "sm_audio ex_sm_old = Some \<lparr>fname = ''Old.mp3'', resource = ''c1''\<rparr>"
    by (simp_all add: file_exists_def read_file_def files_of_def ex_fs_old2_def ex_files_old_def
        ex_sm_old_def)
  from f r ex_old_paths_skip show ?thesis by (simp add: ex_loc_new_def ex_fs_new2_def)
qed

text \<open>
  C7, amended. When the directory name matches the stem up to a numeric suffix,
  \<^verbatim>\<open>ensure_correct_paths\<close> changes nothing. Otherwise (the directory being there) the
  directory is renamed, in the same parent, to the stem, or to the stem with the first free
  numeric suffix when the stem is taken, and the metadata path follows; then every
  descriptor of the sync meta is taken in turn (txt, audio, video, cover, background): its
  file is renamed to the stem with the ending of the recorded name and the recorded name
  updated, unless the two names are the same, the target exists or the old file is
  missing, in which case file and recorded name stay and nothing is logged. Renaming moves
  a file's contents as they are; no other directory changes and the directory holds the
  same contents afterwards.
\<close>

theorem ensure_correct_paths_renames:
  "(is_name_maybe_with_suffix (dir_name (dir_path loc)) (filename_stem loc)
      \<longrightarrow> ensure_correct_paths loc sm fs = Inr (loc, sm, fs)) \<and>
   (\<not> is_name_maybe_with_suffix (dir_name (dir_path loc)) (filename_stem loc) \<and>
    \<not> dir_exists fs (dir_path loc)
      \<longrightarrow> ensure_correct_paths loc sm fs = Inl FileNotFoundError) \<and>
   (\<not> is_name_maybe_with_suffix (dir_name (dir_path loc)) (filename_stem loc) \<and>
    dir_exists fs (dir_path loc)
      \<longrightarrow> (\<exists>new loc' sm' fs0 fs1 fs2 fs3 fs4 fs'.
             new = next_unique_directory fs
                     (DirPath (dir_parent (dir_path loc)) (filename_stem loc)) \<and>
             loc' = loc\<lparr>loc_meta_path := FilePath new (name (loc_meta_path loc))\<rparr> \<and>
             ensure_correct_paths loc sm fs = Inr (loc', sm', fs') \<and>
             dir_parent new = dir_parent (dir_path loc) \<and>
             is_name_maybe_with_suffix (dir_name new) (filename_stem loc) \<and>
             (\<not> dir_exists fs (DirPath (dir_parent (dir_path loc)) (filename_stem loc))
                \<longrightarrow> dir_name new = filename_stem loc) \<and>
             \<not> dir_exists fs new \<and>
             fmlookup fs0 new = fmlookup fs (dir_path loc) \<and>
             \<not> dir_exists fs0 (dir_path loc) \<and>
             (\<forall>d. d \<noteq> new \<and> d \<noteq> dir_path loc \<longrightarrow> fmlookup fs0 d = fmlookup fs d) \<and>
             fix_file_meta loc' fs0 (sm_txt sm) = Inr (fs1, sm_txt sm') \<and>
             fix_file_meta loc' fs1 (sm_audio sm) = Inr (fs2, sm_audio sm') \<and>
             fix_file_meta loc' fs2 (sm_video sm) = Inr (fs3, sm_video sm') \<and>
             fix_file_meta loc' fs3 (sm_cover sm) = Inr (fs4, sm_cover sm') \<and>
             fix_file_meta loc' fs4 (sm_background sm) = Inr (fs', sm_background sm') \<and>
             sm_song_id sm' = sm_song_id sm \<and> sm_meta_tags sm' = sm_meta_tags sm \<and>
             pinned sm' = pinned sm \<and>
             \<not> dir_exists fs' (dir_path loc) \<and>
             (\<forall>d. d \<noteq> new \<and> d \<noteq> dir_path loc \<longrightarrow> fmlookup fs' d = fmlookup fs d) \<and>
             fmran' (files_of fs' new) = fmran' (files_of fs (dir_path loc)))) \<and>
   fix_file_meta l f None = Inr (f, None) \<and>
   fix_file_meta l f (Some meta)
     = (case fix_resource_path l f meta of
          Inl e \<Rightarrow> Inl e
        | Inr (f', meta') \<Rightarrow> Inr (f', Some meta')) \<and>
   (let old_path = file_path l (fname meta) [];
        new_path = file_path l (filename_stem l @ resource_file_ending (fname meta)) []
    in (old_path = new_path \<or> file_exists f new_path \<or> \<not> file_exists f old_path
          \<longrightarrow> fix_resource_path l f meta = Inr (f, meta)) \<and>
       (\<not> (old_path = new_path \<or> file_exists f new_path \<or> \<not> file_exists f old_path)
          \<longrightarrow> (\<exists>f'. fix_resource_path l f meta = Inr (f', meta\<lparr>fname := name new_path\<rparr>) \<and>
                 read_file f' new_path = read_file f old_path \<and>
                 read_file f' old_path = None \<and>
                 (\<forall>p. p \<noteq> old_path \<and> p \<noteq> new_path \<longrightarrow> read_file f' p = read_file f p))))"
proof (intro conjI impI)
  assume "is_name_maybe_with_suffix (dir_name (dir_path loc)) (filename_stem loc)"
  then show "ensure_correct_paths loc sm fs = Inr (loc, sm, fs)"
    by (simp add: ensure_correct_paths_def)
next
  assume "\<not> is_name_maybe_with_suffix (dir_name (dir_path loc)) (filename_stem loc) \<and>
    \<not> dir_exists fs (dir_path loc)"
  then show "ensure_correct_paths loc sm fs = Inl FileNotFoundError"
    by (simp add: ensure_correct_paths_def fix_meta_path_def rename_dir_def dir_exists_def
        bind_err_def Let_def)
next
  assume a: "\<not> is_name_maybe_with_suffix (dir_name (dir_path loc)) (filename_stem loc) \<and>
    dir_exists fs (dir_path loc)"
  let ?old = "dir_path loc"
  let ?new = "next_unique_directory fs (DirPath (dir_parent ?old) (filename_stem loc))"
  let ?loc = "loc\<lparr>loc_meta_path := FilePath ?new (name (loc_meta_path loc))\<rparr>"
  have free: "\<not> dir_exists fs ?new" by (rule next_unique_directory_free)
  from a have ex: "dir_exists fs ?old" by simp
  from rename_dir_moves[OF ex free] obtain fs0 where r:
    "rename_dir fs ?old ?new = Inr fs0" "fmlookup fs0 ?new = fmlookup fs ?old"
    "\<not> dir_exists fs0 ?old" "dir_exists fs0 ?new" "files_of fs0 ?new = files_of fs ?old"
    "\<forall>d. d \<noteq> ?new \<and> d \<noteq> ?old \<longrightarrow> fmlookup fs0 d = fmlookup fs d"
    by blast
  have m: "fix_meta_path loc fs = Inr (?loc, fs0)"
    using r(1) by (simp add: fix_meta_path_def bind_err_def Let_def)
  have d: "dir_path ?loc = ?new" by (simp add: dir_path_def)
  from fix_resource_paths_chain[of ?loc sm fs0] obtain sm' fs1 fs2 fs3 fs4 fs5 where c:
    "fix_resource_paths ?loc sm fs0 = Inr (sm', fs5)"
    "fix_file_meta ?loc fs0 (sm_txt sm) = Inr (fs1, sm_txt sm')"
    "fix_file_meta ?loc fs1 (sm_audio sm) = Inr (fs2, sm_audio sm')"
    "fix_file_meta ?loc fs2 (sm_video sm) = Inr (fs3, sm_video sm')"
    "fix_file_meta ?loc fs3 (sm_cover sm) = Inr (fs4, sm_cover sm')"
    "fix_file_meta ?loc fs4 (sm_background sm) = Inr (fs5, sm_background sm')"
    "sm_song_id sm' = sm_song_id sm" "sm_meta_tags sm' = sm_meta_tags sm"
    "pinned sm' = pinned sm" "keeps_contents ?new fs0 fs5"
    unfolding d by blast
  have e: "ensure_correct_paths loc sm fs = Inr (?loc, sm', fs5)"
    using a m c(1) by (simp add: ensure_correct_paths_def bind_err_def)
  have ne: "?old \<noteq> ?new" using ex free by auto
  have g1: "\<not> dir_exists fs5 ?old"
    using c(10) r(3) ne by (simp add: keeps_contents_def dir_exists_def)
  have g2: "\<forall>d. d \<noteq> ?new \<and> d \<noteq> ?old \<longrightarrow> fmlookup fs5 d = fmlookup fs d"
    using c(10) r(6) by (simp add: keeps_contents_def)
  have g3: "fmran' (files_of fs5 ?new) = fmran' (files_of fs ?old)"
    using c(10) r(5) by (simp add: keeps_contents_def)
  have n1: "dir_parent ?new = dir_parent ?old" using next_unique_directory_parent[of fs "DirPath (dir_parent ?old) (filename_stem loc)"] by simp
  have n2: "is_name_maybe_with_suffix (dir_name ?new) (filename_stem loc)"
    by (rule next_unique_directory_matches)
  have n3: "\<not> dir_exists fs (DirPath (dir_parent ?old) (filename_stem loc))
      \<longrightarrow> dir_name ?new = filename_stem loc"
    by (simp add: next_unique_directory_def)
  show "\<exists>new loc' sm' fs0 fs1 fs2 fs3 fs4 fs'.
             new = next_unique_directory fs
                     (DirPath (dir_parent (dir_path loc)) (filename_stem loc)) \<and>
             loc' = loc\<lparr>loc_meta_path := FilePath new (name (loc_meta_path loc))\<rparr> \<and>
             ensure_correct_paths loc sm fs = Inr (loc', sm', fs') \<and>
             dir_parent new = dir_parent (dir_path loc) \<and>
             is_name_maybe_with_suffix (dir_name new) (filename_stem loc) \<and>
             (\<not> dir_exists fs (DirPath (dir_parent (dir_path loc)) (filename_stem loc))
                \<longrightarrow> dir_name new = filename_stem loc) \<and>
             \<not> dir_exists fs new \<and>
             fmlookup fs0 new = fmlookup fs (dir_path loc) \<and>
             \<not> dir_exists fs0 (dir_path loc) \<and>
             (\<forall>d. d \<noteq> new \<and> d \<noteq> dir_path loc \<longrightarrow> fmlookup fs0 d = fmlookup fs d) \<and>
             fix_file_meta loc' fs0 (sm_txt sm) = Inr (fs1, sm_txt sm') \<and>
             fix_file_meta loc' fs1 (sm_audio sm) = Inr (fs2, sm_audio sm') \<and>
             fix_file_meta loc' fs2 (sm_video sm) = Inr (fs3, sm_video sm') \<and>
             fix_file_meta loc' fs3 (sm_cover sm) = Inr (fs4, sm_cover sm') \<and>
             fix_file_meta loc' fs4 (sm_background sm) = Inr (fs', sm_background sm') \<and>
             sm_song_id sm' = sm_song_id sm \<and> sm_meta_tags sm' = sm_meta_tags sm \<and>
             pinned sm' = pinned sm \<and>
             \<not> dir_exists fs' (dir_path loc) \<and>
             (\<forall>d. d \<noteq> new \<and> d \<noteq> dir_path loc \<longrightarrow> fmlookup fs' d = fmlookup fs d) \<and>
             fmran' (files_of fs' new) = fmran' (files_of fs (dir_path loc))"
    using e n1 n2 n3 free r(2,3,6) c(2-9) g1 g2 g3 by blast
next
  show "fix_file_meta l f None = Inr (f, None)" by simp
next
  show "fix_file_meta l f (Some meta)
     = (case fix_resource_path l f meta of
          Inl e \<Rightarrow> Inl e
        | Inr (f', meta') \<Rightarrow> Inr (f', Some meta'))"
    by (simp add: bind_err_def)
next
  show "let old_path = file_path l (fname meta) [];
        new_path = file_path l (filename_stem l @ resource_file_ending (fname meta)) []
    in (old_path = new_path \<or> file_exists f new_path \<or> \<not> file_exists f old_path
          \<longrightarrow> fix_resource_path l f meta = Inr (f, meta)) \<and>
       (\<not> (old_path = new_path \<or> file_exists f new_path \<or> \<not> file_exists f old_path)
          \<longrightarrow> (\<exists>f'. fix_resource_path l f meta = Inr (f', meta\<lparr>fname := name new_path\<rparr>) \<and>
                 read_file f' new_path = read_file f old_path \<and>
                 read_file f' old_path = None \<and>
                 (\<forall>p. p \<noteq> old_path \<and> p \<noteq> new_path \<longrightarrow> read_file f' p = read_file f p)))"
    using fix_resource_path_cases[of l meta f] unfolding Let_def by blast
qed

theorem ensure_correct_paths_renames_witness:
  "\<not> is_name_maybe_with_suffix (dir_name (dir_path ex_loc_old)) (filename_stem ex_loc_old) \<and>
   dir_exists ex_fs_old (dir_path ex_loc_old) \<and>
   (case ensure_correct_paths ex_loc_old ex_sm_old ex_fs_old of
      Inl e \<Rightarrow> False
    | Inr (loc', sm', fs') \<Rightarrow>
        loc_meta_path loc' = FilePath (DirPath ''songs'' ''A - B'') ''1.usdb'' \<and>
        sm_audio sm' = Some \<lparr>fname = ''A - B.mp3'', resource = ''c1''\<rparr> \<and>
        read_file fs' (FilePath (DirPath ''songs'' ''A - B'') ''A - B.mp3'')
          = Some (File (Bytes ''audio'') []) \<and>
        read_file fs' (FilePath (DirPath ''songs'' ''A - B'') ''Old.mp3'') = None \<and>
        \<not> dir_exists fs' (DirPath ''songs'' ''Old''))"
proof -
  have e: "dir_exists ex_fs_old (dir_path ex_loc_old)"
    by (simp add: dir_exists_def ex_fs_old_def ex_loc_old_def dir_path_def)
  have r: "case ensure_correct_paths ex_loc_old ex_sm_old ex_fs_old of
      Inl e \<Rightarrow> False
    | Inr (loc', sm', fs') \<Rightarrow>
        loc_meta_path loc' = FilePath (DirPath ''songs'' ''A - B'') ''1.usdb'' \<and>
        sm_audio sm' = Some \<lparr>fname = ''A - B.mp3'', resource = ''c1''\<rparr> \<and>
        read_file fs' (FilePath (DirPath ''songs'' ''A - B'') ''A - B.mp3'')
          = Some (File (Bytes ''audio'') []) \<and>
        read_file fs' (FilePath (DirPath ''songs'' ''A - B'') ''Old.mp3'') = None \<and>
        \<not> dir_exists fs' (DirPath ''songs'' ''Old'')"
    using ex_old_fix_move
    by (simp add: ensure_correct_paths_def ex_old_mismatch ex_old_meta_path bind_err_def
        ex_dir_def split: sum.splits prod.splits)
  from ex_old_mismatch e r show ?thesis
    using ensure_correct_paths_renames[of ex_loc_old ex_sm_old ex_fs_old]
    by simp
qed

end
